theory Spec2Isabelle
  imports Complex_Main "HOL-Library.AList"
begin

section \<open>Text formatting used by both programs\<close>

text \<open>
  Go strings are byte sequences; a \<^typ>\<open>string\<close> is a list of bytes. The verbs of
  \<^verbatim>\<open>fmt\<close> that the two programs use are modelled here: \<^verbatim>\<open>%d\<close> on an
  \<^verbatim>\<open>int\<close> and \<^verbatim>\<open>%v\<close> on a \<^verbatim>\<open>bool\<close>.
\<close>

definition digit_char :: "nat \<Rightarrow> char" where
  "digit_char d = ''0123456789'' ! d"

fun fmt_nat :: "nat \<Rightarrow> string" where
  "fmt_nat n = (if n < 10 then [digit_char n] else fmt_nat (n div 10) @ [digit_char (n mod 10)])"

declare fmt_nat.simps [simp del]

definition fmt_d :: "int \<Rightarrow> string" where
  "fmt_d i = (if i < 0 then CHR ''-'' # fmt_nat (nat (- i)) else fmt_nat (nat i))"

definition fmt_v :: "bool \<Rightarrow> string" where
  "fmt_v b = (if b then ''true'' else ''false'')"

section \<open>The relay server (package main of the server program)\<close>

subsection \<open>Server state\<close>

text \<open>
  A \<^verbatim>\<open>net.Conn\<close> is modelled by a handle. \<^verbatim>\<open>Server.clients\<close>, a
  \<^verbatim>\<open>map[net.Conn]string\<close>, is an association list with distinct keys, read with
  \<^const>\<open>map_of\<close>, written with \<^const>\<open>AList.update\<close> and \<^const>\<open>AList.delete\<close>.
  The order of the list stands for one of the iteration orders Go may choose.
  \<^verbatim>\<open>Server.mu\<close> is not a field of the model: each critical section is one atomic
  step below.
\<close>

type_synonym Conn = nat

record Server =
  clients :: "(Conn \<times> string) list"

definition NewServer :: Server where
  "NewServer = \<lparr>clients = []\<rparr>"

subsection \<open>The pieces of handleClient and broadcast\<close>

text \<open>Line 26: the identity is computed from the live size of the map, before the lock is taken.\<close>

definition clientID_of :: "'a Server_scheme \<Rightarrow> string" where
  "clientID_of s = ''player'' @ fmt_d (int (length (clients s)) + 1)"

text \<open>Lines 27 to 29: \<^verbatim>\<open>s.clients[conn] = clientID\<close> under the lock.\<close>

definition register :: "Conn \<Rightarrow> string \<Rightarrow> 'a Server_scheme \<Rightarrow> 'a Server_scheme" where
  "register conn cid s = s\<lparr>clients := AList.update conn cid (clients s)\<rparr>"

text \<open>Lines 35 to 37: \<^verbatim>\<open>delete(s.clients, conn)\<close> under the lock.\<close>

definition unregister :: "Conn \<Rightarrow> 'a Server_scheme \<Rightarrow> 'a Server_scheme" where
  "unregister conn s = s\<lparr>clients := AList.delete conn (clients s)\<rparr>"

text \<open>
  What the server does to the outside: a write on a connection that succeeded or
  failed, a line of the log, the deferred \<^verbatim>\<open>conn.Close()\<close>.
\<close>

datatype action =
    Delivered Conn string
  | WriteFailed Conn string
  | LogSendError Conn
  | LogReadError Conn
  | Close Conn

text \<open>
  Lines 45 to 55. Whether \<^verbatim>\<open>fmt.Fprint(conn, message)\<close> returns an error is decided
  by the network: \<open>failing\<close> lists the endpoints whose write fails during this
  broadcast. The map is only read.
\<close>

definition broadcast_one :: "Conn list \<Rightarrow> string \<Rightarrow> Conn \<Rightarrow> action list" where
  "broadcast_one failing message conn =
     (if conn \<in> set failing then [WriteFailed conn message, LogSendError conn]
      else [Delivered conn message])"

definition broadcast :: "Conn list \<Rightarrow> string \<Rightarrow> 'a Server_scheme \<Rightarrow> action list" where
  "broadcast failing message s =
     concat (map (broadcast_one failing message) (map fst (clients s)))"

subsection \<open>The relay process: one handleClient task per accepted connection\<close>

text \<open>
  A task of \<^verbatim>\<open>handleClient\<close> has computed its \<^verbatim>\<open>clientID\<close> (line 26) and
  not yet inserted it, or it is in its read loop. \<^verbatim>\<open>listener.Accept\<close> returns a
  connection that was never returned before: the next unused handle.
\<close>

datatype handler = Starting string | Reading string

record relay = Server +
  handlers :: "(Conn \<times> handler) list"
  next_conn :: Conn

definition relay_init :: relay where
  "relay_init = \<lparr>clients = [], handlers = [], next_conn = 0\<rparr>"

text \<open>
  The atomic steps of the process. \<open>Accept\<close>: \<^verbatim>\<open>main\<close> accepts a connection and
  its task runs line 26. \<open>Insert c\<close>: the task of \<open>c\<close> runs lines 27 to 29.
  \<open>Recv c message failing\<close>: the task of \<open>c\<close> reads one line and broadcasts it
  (lines 32 and 41). \<open>ReadErr c\<close>: the read of line 32 fails (lines 33 to 38).
  An event for a task that is not at that point of its code cannot happen and
  changes nothing.
\<close>

datatype event =
    Accept
  | Insert Conn
  | Recv Conn string "Conn list"
  | ReadErr Conn

definition handleClient_start :: "relay \<Rightarrow> relay" where
  "handleClient_start s =
     s\<lparr>handlers := AList.update (next_conn s) (Starting (clientID_of s)) (handlers s),
       next_conn := Suc (next_conn s)\<rparr>"

definition handleClient_insert :: "Conn \<Rightarrow> string \<Rightarrow> relay \<Rightarrow> relay" where
  "handleClient_insert conn cid s =
     (register conn cid s)\<lparr>handlers := AList.update conn (Reading cid) (handlers s)\<rparr>"

definition handleClient_message :: "string \<Rightarrow> string \<Rightarrow> Conn list \<Rightarrow> relay \<Rightarrow> action list" where
  "handleClient_message cid message failing s =
     broadcast failing (cid @ '','' @ message) s"

definition handleClient_error :: "Conn \<Rightarrow> relay \<Rightarrow> relay \<times> action list" where
  "handleClient_error conn s =
     ((unregister conn s)\<lparr>handlers := AList.delete conn (handlers s)\<rparr>,
      [LogReadError conn, Close conn])"

fun step :: "relay \<Rightarrow> event \<Rightarrow> relay \<times> action list" where
  "step s Accept = (handleClient_start s, [])"
| "step s (Insert c) =
     (case map_of (handlers s) c of
        Some (Starting cid) \<Rightarrow> (handleClient_insert c cid s, [])
      | _ \<Rightarrow> (s, []))"
| "step s (Recv c message failing) =
     (case map_of (handlers s) c of
        Some (Reading cid) \<Rightarrow> (s, handleClient_message cid message failing s)
      | _ \<Rightarrow> (s, []))"
| "step s (ReadErr c) =
     (case map_of (handlers s) c of
        Some (Reading cid) \<Rightarrow> handleClient_error c s
      | _ \<Rightarrow> (s, []))"

fun exec :: "relay \<Rightarrow> event list \<Rightarrow> relay \<times> action list" where
  "exec s [] = (s, [])"
| "exec s (e # es) =
     (case step s e of (s1, a1) \<Rightarrow> (case exec s1 es of (s2, a2) \<Rightarrow> (s2, a1 @ a2)))"

section \<open>Library functions of Go used by the client\<close>

subsection \<open>strings.Split and strings.TrimSpace\<close>

text \<open>\<^verbatim>\<open>strings.Split(s, sep)\<close> for a separator of one byte: the fields between the
  separators, at least one field.\<close>

fun Split :: "string \<Rightarrow> char \<Rightarrow> string list" where
  "Split [] sep = [[]]"
| "Split (c # cs) sep =
     (if c = sep then [] # Split cs sep
      else (case Split cs sep of f # fs \<Rightarrow> (c # f) # fs | [] \<Rightarrow> [[c]]))"

text \<open>
  \<^verbatim>\<open>strings.TrimSpace\<close> removes the runes of \<^verbatim>\<open>unicode.IsSpace\<close> from both ends.
  In UTF-8 these are six bytes of ASCII, U+0085 and U+00A0 (two bytes each), and
  U+1680, U+2000 to U+200A, U+2028, U+2029, U+202F, U+205F and U+3000 (three bytes each).
\<close>

definition isSpace1 :: "char \<Rightarrow> bool" where
  "isSpace1 a \<longleftrightarrow> a \<in> set [CHR 0x09, CHR 0x0A, CHR 0x0B, CHR 0x0C, CHR 0x0D, CHR 0x20]"

definition isSpace2 :: "char \<Rightarrow> char \<Rightarrow> bool" where
  "isSpace2 a b \<longleftrightarrow> a = CHR 0xC2 \<and> (b = CHR 0x85 \<or> b = CHR 0xA0)"

definition isSpace3 :: "char \<Rightarrow> char \<Rightarrow> char \<Rightarrow> bool" where
  "isSpace3 a b c \<longleftrightarrow>
     (a = CHR 0xE1 \<and> b = CHR 0x9A \<and> c = CHR 0x80) \<or>
     (a = CHR 0xE2 \<and> b = CHR 0x80 \<and>
        c \<in> set [CHR 0x80, CHR 0x81, CHR 0x82, CHR 0x83, CHR 0x84, CHR 0x85, CHR 0x86, CHR 0x87,
                  CHR 0x88, CHR 0x89, CHR 0x8A, CHR 0xA8, CHR 0xA9, CHR 0xAF]) \<or>
     (a = CHR 0xE2 \<and> b = CHR 0x81 \<and> c = CHR 0x9F) \<or>
     (a = CHR 0xE3 \<and> b = CHR 0x80 \<and> c = CHR 0x80)"

fun TrimLeft :: "string \<Rightarrow> string" where
  "TrimLeft (a # b # c # s) =
     (if isSpace1 a then TrimLeft (b # c # s)
      else if isSpace2 a b then TrimLeft (c # s)
      else if isSpace3 a b c then TrimLeft s
      else a # b # c # s)"
| "TrimLeft [a, b] =
     (if isSpace1 a then TrimLeft [b] else if isSpace2 a b then [] else [a, b])"
| "TrimLeft [a] = (if isSpace1 a then [] else [a])"
| "TrimLeft [] = []"

text \<open>The same from the end, on the reversed string: the bytes of a rune come last first.\<close>

fun TrimRight_rev :: "string \<Rightarrow> string" where
  "TrimRight_rev (c # b # a # s) =
     (if isSpace1 c then TrimRight_rev (b # a # s)
      else if isSpace2 b c then TrimRight_rev (a # s)
      else if isSpace3 a b c then TrimRight_rev s
      else c # b # a # s)"
| "TrimRight_rev [c, b] =
     (if isSpace1 c then TrimRight_rev [b] else if isSpace2 b c then [] else [c, b])"
| "TrimRight_rev [c] = (if isSpace1 c then [] else [c])"
| "TrimRight_rev [] = []"

definition TrimRight :: "string \<Rightarrow> string" where
  "TrimRight s = rev (TrimRight_rev (rev s))"

definition TrimSpace :: "string \<Rightarrow> string" where
  "TrimSpace s = TrimRight (TrimLeft s)"

subsection \<open>strconv.Atoi and strconv.ParseBool\<close>

datatype NumError = ErrSyntax | ErrRange

definition digit_val :: "char \<Rightarrow> nat option" where
  "digit_val c =
     (let k = (of_char c :: nat) in if 48 \<le> k \<and> k \<le> 57 then Some (k - 48) else None)"

definition maxUint64 :: nat where
  "maxUint64 = 18446744073709551615"

definition maxInt64 :: int where
  "maxInt64 = 9223372036854775807"

definition minInt64 :: int where
  "minInt64 = - 9223372036854775808"

text \<open>
  The loop of \<^verbatim>\<open>strconv.ParseUint(s, 10, 64)\<close> on a string that is not empty: a byte
  that is no digit is a syntax error with value 0; an overflow stops the loop at
  once with the largest value and a range error, before the bytes after it are
  looked at.
\<close>

fun ParseUint_loop :: "string \<Rightarrow> nat \<Rightarrow> nat \<times> NumError option" where
  "ParseUint_loop [] n = (n, None)"
| "ParseUint_loop (c # cs) n =
     (case digit_val c of
        None \<Rightarrow> (0, Some ErrSyntax)
      | Some d \<Rightarrow>
          if n \<ge> maxUint64 div 10 + 1 then (maxUint64, Some ErrRange)
          else if n * 10 + d > maxUint64 then (maxUint64, Some ErrRange)
          else ParseUint_loop cs (n * 10 + d))"

definition ParseUint :: "string \<Rightarrow> nat \<times> NumError option" where
  "ParseUint s = (if s = [] then (0, Some ErrSyntax) else ParseUint_loop s 0)"

text \<open>
  \<^verbatim>\<open>strconv.Atoi(s)\<close> where \<^verbatim>\<open>int\<close> has 64 bits, as \<^verbatim>\<open>ParseInt(s, 10, 0)\<close> computes
  it: value and error. The short strings that \<^verbatim>\<open>Atoi\<close> handles itself get the
  same value and the same error.
\<close>

definition Atoi :: "string \<Rightarrow> int \<times> NumError option" where
  "Atoi s =
     (if s = [] then (0, Some ErrSyntax)
      else
        let neg = (hd s = CHR ''-'');
            body = (if hd s = CHR ''+'' \<or> hd s = CHR ''-'' then tl s else s)
        in case ParseUint body of
             (un, Some ErrSyntax) \<Rightarrow> (0, Some ErrSyntax)
           | (un, r) \<Rightarrow>
               if \<not> neg \<and> int un \<ge> 9223372036854775808 then (maxInt64, Some ErrRange)
               else if neg \<and> int un > 9223372036854775808 then (minInt64, Some ErrRange)
               else (if neg then - int un else int un, None))"

definition ParseBool :: "string \<Rightarrow> bool \<times> NumError option" where
  "ParseBool str =
     (if str \<in> set [''1'', ''t'', ''T'', ''TRUE'', ''true'', ''True''] then (True, None)
      else if str \<in> set [''0'', ''f'', ''F'', ''FALSE'', ''false'', ''False''] then (False, None)
      else (False, Some ErrSyntax))"

subsection \<open>float64 values and the verb %.2f\<close>

text \<open>
  A \<^verbatim>\<open>float64\<close> is a finite value, given by the rational number it denotes
  exactly (\<open>Fin 0\<close> is positive zero), negative zero, an infinity or NaN.
  \<^verbatim>\<open>%.2f\<close> prints the exact value rounded to two fractional digits, a tie going to
  the even digit, with the sign of the value also when the digits are all zero.
\<close>

datatype float64 = Fin rat | NegZero | PosInf | NegInf | NaN

definition round_half_even :: "rat \<Rightarrow> int" where
  "round_half_even q =
     (let f = \<lfloor>q\<rfloor>; r = q - of_int f
      in if r < 1 / 2 then f else if 1 / 2 < r then f + 1 else if even f then f else f + 1)"

definition fmt_fixed2 :: "bool \<Rightarrow> rat \<Rightarrow> string" where
  "fmt_fixed2 neg a =
     (let n = nat (round_half_even (a * 100))
      in (if neg then ''-'' else []) @ fmt_nat (n div 100) @ ''.'' @
         [digit_char (n mod 100 div 10), digit_char (n mod 10)])"

fun fmt_2f :: "float64 \<Rightarrow> string" where
  "fmt_2f (Fin r) = fmt_fixed2 (r < 0) \<bar>r\<bar>"
| "fmt_2f NegZero = ''-0.00''"
| "fmt_2f PosInf = ''+Inf''"
| "fmt_2f NegInf = ''-Inf''"
| "fmt_2f NaN = ''NaN''"

text \<open>\<^verbatim>\<open>>=\<close> on \<^verbatim>\<open>float64\<close>: false when an operand is NaN, the two zeros equal.\<close>

fun f_ge :: "float64 \<Rightarrow> float64 \<Rightarrow> bool" where
  "f_ge NaN y = False"
| "f_ge x NaN = False"
| "f_ge PosInf y = True"
| "f_ge x NegInf = True"
| "f_ge NegInf y = False"
| "f_ge x PosInf = False"
| "f_ge NegZero NegZero = True"
| "f_ge NegZero (Fin b) = (0 \<ge> b)"
| "f_ge (Fin a) NegZero = (a \<ge> 0)"
| "f_ge (Fin a) (Fin b) = (a \<ge> b)"

text \<open>
  The rest of the floating-point library is a parameter of the client:
  \<^verbatim>\<open>strconv.ParseFloat(s, 64)\<close> with its value and its error, and the rounded
  arithmetic of \<^verbatim>\<open>float64\<close>.
\<close>

record float_lib =
  ParseFloat :: "string \<Rightarrow> float64 \<times> NumError option"
  f_add :: "float64 \<Rightarrow> float64 \<Rightarrow> float64"
  f_sub :: "float64 \<Rightarrow> float64 \<Rightarrow> float64"
  f_mul :: "float64 \<Rightarrow> float64 \<Rightarrow> float64"

section \<open>The client (main.go)\<close>

subsection \<open>Character\<close>

type_synonym Image = nat

record Vector2f =
  X :: float64
  Y :: float64

record Character =
  bodyTexture :: Image
  headTexture :: Image
  position :: Vector2f
  moveSpeed :: float64
  animationSpeed :: float64
  frameIndex :: int
  direction :: int
  timeSinceLastFrame :: float64
  isMoving :: bool

text \<open>The literal \<^verbatim>\<open>0.1\<close> is the \<^verbatim>\<open>float64\<close> nearest to one tenth.\<close>

definition NewCharacter :: "Image \<Rightarrow> Image \<Rightarrow> Vector2f \<Rightarrow> Character" where
  "NewCharacter body head startPos =
     \<lparr>bodyTexture = body, headTexture = head, position = startPos,
      moveSpeed = Fin 200, animationSpeed = Fin (3602879701896397 / 36028797018963968),
      frameIndex = 0, direction = 0, timeSinceLastFrame = Fin 0, isMoving = False\<rparr>"

text \<open>\<^verbatim>\<open>int\<close> has 64 bits and wraps; \<^verbatim>\<open>%\<close> takes the sign of the dividend.\<close>

definition wrap64 :: "int \<Rightarrow> int" where
  "wrap64 i = (i + 9223372036854775808) mod 18446744073709551616 - 9223372036854775808"

definition go_rem :: "int \<Rightarrow> int \<Rightarrow> int" where
  "go_rem a b = sgn a * (\<bar>a\<bar> mod \<bar>b\<bar>)"

definition updateAnimation :: "float_lib \<Rightarrow> float64 \<Rightarrow> Character \<Rightarrow> Character" where
  "updateAnimation lib deltaTime c =
     (let c1 = c\<lparr>timeSinceLastFrame := f_add lib (timeSinceLastFrame c) deltaTime\<rparr>
      in if isMoving c1 then
           (if f_ge (timeSinceLastFrame c1) (animationSpeed c1)
            then c1\<lparr>frameIndex := go_rem (wrap64 (frameIndex c1 + 1)) 5,
                    timeSinceLastFrame := Fin 0\<rparr>
            else c1)
         else c1\<lparr>frameIndex := 0\<rparr>)"

definition Character_Update :: "float_lib \<Rightarrow> float64 \<Rightarrow> Character \<Rightarrow> Character" where
  "Character_Update lib deltaTime c = updateAnimation lib deltaTime c"

subsection \<open>Game\<close>

text \<open>
  \<^verbatim>\<open>otherPlayers\<close>, a \<^verbatim>\<open>map[string]*Character\<close>, is an association list from
  identities to the characters pointed to: every pointer of the map comes from its
  own call of \<^verbatim>\<open>NewCharacter\<close>, so no two entries share a character.
\<close>

record Game =
  localPlayer :: Character
  otherPlayers :: "(string \<times> Character) list"
  conn :: Conn
  tilesImage :: Image
  layers :: "int list list"

definition NewGame :: "Conn \<Rightarrow> Image \<Rightarrow> Image \<Rightarrow> Image \<Rightarrow> int list list \<Rightarrow> Game" where
  "NewGame c body head tiles ls =
     \<lparr>localPlayer = NewCharacter body head \<lparr>X = Fin 400, Y = Fin 300\<rparr>,
      otherPlayers = [], conn = c, tilesImage = tiles, layers = ls\<rparr>"

subsection \<open>The publisher: handleInput and Update\<close>

text \<open>Line 151: the record \<^verbatim>\<open>"%.2f,%.2f,%d,%v\n"\<close> of the local player.\<close>

definition encode :: "Character \<Rightarrow> string" where
  "encode p =
     fmt_2f (X (position p)) @ '','' @ fmt_2f (Y (position p)) @ '','' @
     fmt_d (direction p) @ '','' @ fmt_v (isMoving p) @ [CHR 0x0A]"

text \<open>
  What \<^verbatim>\<open>fmt.Fprintf(g.conn, ...)\<close> returns: the number of bytes written and an
  error. Whether the write succeeds is decided by the network.
\<close>

datatype TransportError = WriteError

definition Fprintf :: "bool \<Rightarrow> string \<Rightarrow> nat \<times> TransportError option" where
  "Fprintf ok s = (if ok then (length s, None) else (0, Some WriteError))"

record Keys =
  KeyUp :: bool
  KeyDown :: bool
  KeyLeft :: bool
  KeyRight :: bool

text \<open>
  Lines 123 to 152. The result is the new game and the record handed to the
  connection; what \<^verbatim>\<open>Fprintf\<close> returns is bound to nothing, as in the source.
\<close>

definition handleInput :: "float_lib \<Rightarrow> Keys \<Rightarrow> bool \<Rightarrow> float64 \<Rightarrow> Game \<Rightarrow> Game \<times> string" where
  "handleInput lib keys ok deltaTime g =
     (let p0 = (localPlayer g)\<lparr>isMoving := False\<rparr>;
          m0 = \<lparr>X = Fin 0, Y = Fin 0\<rparr>;
          m1 = (if KeyUp keys then m0\<lparr>Y := f_sub lib (Y m0) (f_mul lib (moveSpeed p0) deltaTime)\<rparr> else m0);
          p1 = (if KeyUp keys then p0\<lparr>direction := 0, isMoving := True\<rparr> else p0);
          m2 = (if KeyDown keys then m1\<lparr>Y := f_add lib (Y m1) (f_mul lib (moveSpeed p1) deltaTime)\<rparr> else m1);
          p2 = (if KeyDown keys then p1\<lparr>direction := 2, isMoving := True\<rparr> else p1);
          m3 = (if KeyLeft keys then m2\<lparr>X := f_sub lib (X m2) (f_mul lib (moveSpeed p2) deltaTime)\<rparr> else m2);
          p3 = (if KeyLeft keys then p2\<lparr>direction := 1, isMoving := True\<rparr> else p2);
          m4 = (if KeyRight keys then m3\<lparr>X := f_add lib (X m3) (f_mul lib (moveSpeed p3) deltaTime)\<rparr> else m3);
          p4 = (if KeyRight keys then p3\<lparr>direction := 3, isMoving := True\<rparr> else p3);
          p5 = p4\<lparr>position := \<lparr>X = f_add lib (X (position p4)) (X m4),
                                   Y = f_add lib (Y (position p4)) (Y m4)\<rparr>\<rparr>;
          written = Fprintf ok (encode p5)
      in (g\<lparr>localPlayer := p5\<rparr>, encode p5))"

text \<open>
  Lines 109 to 121. \<^verbatim>\<open>1.0 / 120.0\<close> is the \<^verbatim>\<open>float64\<close> nearest to 1/120. The
  result is the new game, the record handed to the connection and the returned
  \<^verbatim>\<open>error\<close>.
\<close>

definition deltaTime_tick :: float64 where
  "deltaTime_tick = Fin (4803839602528529 / 576460752303423488)"

definition Update :: "float_lib \<Rightarrow> Keys \<Rightarrow> bool \<Rightarrow> Game \<Rightarrow> Game \<times> string \<times> TransportError option" where
  "Update lib keys ok g =
     (let (g1, out) = handleInput lib keys ok deltaTime_tick g;
          g2 = g1\<lparr>localPlayer := Character_Update lib deltaTime_tick (localPlayer g1)\<rparr>;
          g3 = g2\<lparr>otherPlayers :=
                 map (\<lambda>(ident, player). (ident, Character_Update lib deltaTime_tick player))
                   (otherPlayers g2)\<rparr>
      in (g3, out, None))"

subsection \<open>The receive loop: receiveUpdates\<close>

text \<open>
  Lines 203 to 209: the fields of one record. The errors of the three parsers are
  dropped (\<^verbatim>\<open>x, _ := ...\<close>); only the number of fields is checked.
\<close>

definition decode :: "float_lib \<Rightarrow> string \<Rightarrow> (string \<times> float64 \<times> float64 \<times> int \<times> bool) option" where
  "decode lib playerData =
     (let data = Split playerData (CHR '','')
      in if length data = 5
         then Some (data ! 0, fst (ParseFloat lib (data ! 1)), fst (ParseFloat lib (data ! 2)),
                    fst (Atoi (data ! 3)), fst (ParseBool (data ! 4)))
         else None)"

text \<open>Lines 211 to 218: the update of the cache for one decoded record.\<close>

definition apply_update :: "string \<Rightarrow> float64 \<Rightarrow> float64 \<Rightarrow> int \<Rightarrow> bool \<Rightarrow> Game \<Rightarrow> Game" where
  "apply_update ident x y dir moving g =
     (if ident \<noteq> ''local'' then
        (let player = (case map_of (otherPlayers g) ident of
                         None \<Rightarrow> NewCharacter (bodyTexture (localPlayer g)) (headTexture (localPlayer g))
                                   \<lparr>X = x, Y = y\<rparr>
                       | Some p \<Rightarrow> p)
         in g\<lparr>otherPlayers :=
                AList.update ident (player\<lparr>position := \<lparr>X = x, Y = y\<rparr>, direction := dir, isMoving := moving\<rparr>)
                  (otherPlayers g)\<rparr>)
      else g)"

text \<open>Lines 202 to 220: the body of the loop over the records of one message.\<close>

definition apply_record :: "float_lib \<Rightarrow> Game \<Rightarrow> string \<Rightarrow> Game" where
  "apply_record lib g playerData =
     (case decode lib playerData of
        None \<Rightarrow> g
      | Some (ident, x, y, dir, moving) \<Rightarrow> apply_update ident x y dir moving g)"

text \<open>Lines 200 to 221: one message, processed under the lock.\<close>

definition receive_message :: "float_lib \<Rightarrow> string \<Rightarrow> Game \<Rightarrow> Game" where
  "receive_message lib message g =
     foldl (apply_record lib) g (Split (TrimSpace message) (CHR '';''))"

text \<open>
  Lines 191 to 223: the loop, over what \<^verbatim>\<open>reader.ReadString\<close> returns: a line, or
  an error that ends the loop.
\<close>

datatype read_result = Line string | ReadError

fun receiveUpdates :: "float_lib \<Rightarrow> read_result list \<Rightarrow> Game \<Rightarrow> Game" where
  "receiveUpdates lib [] g = g"
| "receiveUpdates lib (ReadError # rest) g = g"
| "receiveUpdates lib (Line message # rest) g = receiveUpdates lib rest (receive_message lib message g)"

subsection \<open>Draw\<close>

text \<open>
  Lines 154 to 167: the characters \<^verbatim>\<open>Draw\<close> draws on a frame, the local player
  and every entry of the cache.
\<close>

definition drawn_characters :: "Game \<Rightarrow> Character list" where
  "drawn_characters g = localPlayer g # map snd (otherPlayers g)"

subsection \<open>The client process: the receive loop beside the game loop\<close>

text \<open>
  The two critical sections of the client and the part of \<^verbatim>\<open>Update\<close> before its
  lock touch disjoint data but the two textures, which nobody writes; every
  execution is an interleaving of these steps: the receive loop reads once
  (\<open>Read\<close>), the game loop runs \<^verbatim>\<open>Update\<close> once (\<open>Tick\<close>).
\<close>

datatype client_event = Read read_result | Tick Keys bool

record client =
  game :: Game
  receiving :: bool

fun client_step :: "float_lib \<Rightarrow> client \<Rightarrow> client_event \<Rightarrow> client" where
  "client_step lib c (Read (Line message)) =
     (if receiving c then c\<lparr>game := receive_message lib message (game c)\<rparr> else c)"
| "client_step lib c (Read ReadError) = c\<lparr>receiving := False\<rparr>"
| "client_step lib c (Tick keys ok) = c\<lparr>game := fst (Update lib keys ok (game c))\<rparr>"

definition client_run :: "float_lib \<Rightarrow> client \<Rightarrow> client_event list \<Rightarrow> client" where
  "client_run lib c evs = foldl (client_step lib) c evs"

section \<open>An exact instance of the floating-point library\<close>

text \<open>
  The closed evaluations below need one floating-point library. This one computes
  without rounding: it reads a decimal literal without exponent exactly, takes every
  other string for a syntax error with value 0, and adds, subtracts and multiplies
  finite values exactly. It is Go's library wherever the exact result is a
  \<^verbatim>\<open>float64\<close> and the string is a plain decimal literal or no number in any of
  Go's notations; the evaluations stay inside that range.
\<close>

fun digits_val :: "string \<Rightarrow> nat \<Rightarrow> nat option" where
  "digits_val [] n = Some n"
| "digits_val (c # cs) n =
     (case digit_val c of None \<Rightarrow> None | Some d \<Rightarrow> digits_val cs (n * 10 + d))"

definition ParseFloat_dec :: "string \<Rightarrow> float64 \<times> NumError option" where
  "ParseFloat_dec s =
     (let neg = (s \<noteq> [] \<and> hd s = CHR ''-'');
          body = (if s \<noteq> [] \<and> (hd s = CHR ''+'' \<or> hd s = CHR ''-'') then tl s else s);
          ip = takeWhile (\<lambda>c. c \<noteq> CHR ''.'') body;
          fp = drop 1 (dropWhile (\<lambda>c. c \<noteq> CHR ''.'') body)
      in if ip @ fp = [] then (Fin 0, Some ErrSyntax)
         else case digits_val (ip @ fp) 0 of
                None \<Rightarrow> (Fin 0, Some ErrSyntax)
              | Some m \<Rightarrow>
                  (let v = of_nat m / 10 ^ length fp
                   in (if neg then (if v = 0 then NegZero else Fin (- v)) else Fin v, None)))"

fun f_rat :: "float64 \<Rightarrow> rat option" where
  "f_rat (Fin r) = Some r"
| "f_rat NegZero = Some 0"
| "f_rat PosInf = None"
| "f_rat NegInf = None"
| "f_rat NaN = None"

definition exact_op :: "(rat \<Rightarrow> rat \<Rightarrow> rat) \<Rightarrow> float64 \<Rightarrow> float64 \<Rightarrow> float64" where
  "exact_op f x y = (case (f_rat x, f_rat y) of (Some a, Some b) \<Rightarrow> Fin (f a b) | _ \<Rightarrow> NaN)"

definition exact_lib :: float_lib where
  "exact_lib = \<lparr>ParseFloat = ParseFloat_dec, f_add = exact_op (+), f_sub = exact_op (-),
                 f_mul = exact_op (*)\<rparr>"

text \<open>A coordinate to two fractional digits, as \<^verbatim>\<open>%.2f\<close> rounds it.\<close>

definition round2 :: "rat \<Rightarrow> rat" where
  "round2 r = sgn r * of_int (round_half_even (\<bar>r\<bar> * 100)) / 100"

section \<open>What ParseFloat promises\<close>

text \<open>
  \<^verbatim>\<open>strconv.ParseFloat\<close> is documented to return the nearest floating-point number
  to a well-formed literal. For a decimal literal without exponent whose value is
  zero, or lies in the range of the normal \<^verbatim>\<open>float64\<close> values, that is a finite
  value with a relative error of at most \<^verbatim>\<open>2^-53\<close>. A library for which this
  holds reads decimals to the nearest \<^verbatim>\<open>float64\<close>; the exact value of the literal
  is the one \<open>ParseFloat_dec\<close> computes.
\<close>

definition max_float64 :: rat where
  "max_float64 = (2 ^ 53 - 1) * 2 ^ 971"

definition normal_range :: "rat \<Rightarrow> bool" where
  "normal_range v \<longleftrightarrow> v = 0 \<or> (1 / 2 ^ 1022 \<le> \<bar>v\<bar> \<and> \<bar>v\<bar> \<le> max_float64)"

definition reads_decimals_nearest :: "float_lib \<Rightarrow> bool" where
  "reads_decimals_nearest lib \<longleftrightarrow>
     (\<forall>s q v. ParseFloat_dec s = (q, None) \<and> f_rat q = Some v \<and> normal_range v \<longrightarrow>
        (\<exists>q'. f_rat (fst (ParseFloat lib s)) = Some q' \<and> \<bar>q' - v\<bar> \<le> \<bar>v\<bar> / 2 ^ 53))"

section \<open>The invariant of the cache, in the words of the specification\<close>

text \<open>
  The identities for which at least one update has been received and not filtered
  since the cache was created: the identities, other than the sentinel, of the
  records of five fields in the lines the receive loop has read before its first
  read error.
\<close>

definition record_ids :: "float_lib \<Rightarrow> string \<Rightarrow> string list" where
  "record_ids lib r =
     (case decode lib r of
        None \<Rightarrow> []
      | Some (ident, x, y, dir, moving) \<Rightarrow> if ident \<noteq> ''local'' then [ident] else [])"

definition message_ids :: "float_lib \<Rightarrow> string \<Rightarrow> string list" where
  "message_ids lib message = concat (map (record_ids lib) (Split (TrimSpace message) (CHR '';'')))"

fun lines_read :: "client_event list \<Rightarrow> string list" where
  "lines_read [] = []"
| "lines_read (Read (Line message) # evs) = message # lines_read evs"
| "lines_read (Read ReadError # evs) = []"
| "lines_read (Tick keys ok # evs) = lines_read evs"

definition received_ids :: "float_lib \<Rightarrow> client_event list \<Rightarrow> string list" where
  "received_ids lib evs = concat (map (message_ids lib) (lines_read evs))"

text \<open>The pose of the entries of the cache: what an update carries.\<close>

definition poses :: "Game \<Rightarrow> (string \<times> Vector2f \<times> int \<times> bool) list" where
  "poses g = map (\<lambda>(ident, p). (ident, position p, direction p, isMoving p)) (otherPlayers g)"

text \<open>
  The updates received and not filtered, in the order of their arrival, each with
  its identity and the pose it carries; and the last of them for an identity.
\<close>

definition record_update :: "float_lib \<Rightarrow> string \<Rightarrow> (string \<times> Vector2f \<times> int \<times> bool) list" where
  "record_update lib r =
     (case decode lib r of
        None \<Rightarrow> []
      | Some (ident, x, y, dir, moving) \<Rightarrow>
          if ident \<noteq> ''local'' then [(ident, \<lparr>X = x, Y = y\<rparr>, dir, moving)] else [])"

definition message_updates :: "float_lib \<Rightarrow> string \<Rightarrow> (string \<times> Vector2f \<times> int \<times> bool) list" where
  "message_updates lib message =
     concat (map (record_update lib) (Split (TrimSpace message) (CHR '';'')))"

definition received_updates :: "float_lib \<Rightarrow> client_event list \<Rightarrow> (string \<times> Vector2f \<times> int \<times> bool) list" where
  "received_updates lib evs = concat (map (message_updates lib) (lines_read evs))"

definition last_update :: "float_lib \<Rightarrow> client_event list \<Rightarrow> string \<Rightarrow> (Vector2f \<times> int \<times> bool) option" where
  "last_update lib evs ident = map_of (rev (received_updates lib evs)) ident"

section \<open>Notions used by the proofs\<close>

text \<open>The connection an action of the server is about, and the actions about one connection.\<close>

definition conn_of :: "action \<Rightarrow> Conn" where
  "conn_of a = (case a of Delivered c _ \<Rightarrow> c | WriteFailed c _ \<Rightarrow> c | LogSendError c \<Rightarrow> c
     | LogReadError c \<Rightarrow> c | Close c \<Rightarrow> c)"

definition actions_for :: "Conn \<Rightarrow> action list \<Rightarrow> action list" where
  "actions_for c acts = filter (\<lambda>a. conn_of a = c) acts"

definition agree :: "relay \<Rightarrow> bool" where
  "agree s \<longleftrightarrow>
     (\<forall>c cid. map_of (clients s) c = Some cid \<longleftrightarrow> map_of (handlers s) c = Some (Reading cid))"

definition bounded :: "relay \<Rightarrow> bool" where
  "bounded s \<longleftrightarrow> (\<forall>c. next_conn s \<le> c \<longrightarrow> map_of (handlers s) c = None)"

definition relay_inv :: "relay \<Rightarrow> bool" where
  "relay_inv s \<longleftrightarrow> distinct (map fst (clients s)) \<and> agree s \<and> bounded s"

definition gone :: "Conn \<Rightarrow> relay \<Rightarrow> bool" where
  "gone c s \<longleftrightarrow> relay_inv s \<and> map_of (handlers s) c = None \<and> c < next_conn s"

text \<open>The bytes \<^verbatim>\<open>%d\<close> prints for a number that is not negative.\<close>

definition digit_chars :: "char set" where
  "digit_chars = set ''0123456789''"

section \<open>Evaluation on concrete inputs\<close>

lemma fmt_nat_digit: "n < 10 \<Longrightarrow> fmt_nat n = [digit_char n]"
  by (simp add: fmt_nat.simps)

lemma fmt_nat_more: "\<not> n < 10 \<Longrightarrow> fmt_nat n = fmt_nat (n div 10) @ [digit_char (n mod 10)]"
  by (subst fmt_nat.simps) simp

lemmas fmt_eval = fmt_d_def fmt_v_def digit_char_def fmt_fixed2_def round_half_even_def
  fmt_nat_digit fmt_nat_more

lemmas parse_eval = Atoi_def ParseUint_def digit_val_def maxUint64_def maxInt64_def minInt64_def
  ParseBool_def ParseFloat_dec_def exact_lib_def exact_op_def

lemmas relay_eval = relay_init_def handleClient_start_def handleClient_insert_def
  handleClient_message_def handleClient_error_def register_def unregister_def clientID_of_def
  broadcast_def broadcast_one_def fmt_d_def fmt_nat_digit digit_char_def actions_for_def conn_of_def

lemmas client_eval = NewGame_def NewCharacter_def encode_def decode_def receive_message_def
  apply_record_def apply_update_def TrimSpace_def TrimRight_def isSpace1_def isSpace2_def isSpace3_def
  NewServer_def

section \<open>The relay: invariants of its executions\<close>

lemma relay_inv_init: "relay_inv relay_init"
  by (simp add: relay_inv_def agree_def bounded_def relay_init_def)

lemma distinct_step:
  "distinct (map fst (clients s)) \<Longrightarrow> distinct (map fst (clients (fst (step s e))))"
  by (cases e)
    (auto simp: handleClient_start_def handleClient_insert_def handleClient_error_def
      register_def unregister_def distinct_update distinct_delete
      split: option.splits handler.splits)

lemma agree_accept: "agree s \<Longrightarrow> bounded s \<Longrightarrow> agree (handleClient_start s)"
  by (auto simp: agree_def bounded_def handleClient_start_def update_conv')

lemma agree_insert:
  "agree s \<Longrightarrow> map_of (handlers s) c = Some (Starting cid) \<Longrightarrow> agree (handleClient_insert c cid s)"
  by (auto simp: agree_def handleClient_insert_def register_def update_conv')

lemma agree_error: "agree s \<Longrightarrow> agree (fst (handleClient_error c s))"
  by (auto simp: agree_def handleClient_error_def unregister_def delete_conv')

lemma agree_step: "agree s \<Longrightarrow> bounded s \<Longrightarrow> agree (fst (step s e))"
  by (cases e) (auto simp: agree_accept agree_insert agree_error split: option.splits handler.splits)

lemma bounded_step: "bounded s \<Longrightarrow> bounded (fst (step s e))"
  by (cases e)
    (auto simp: bounded_def handleClient_start_def handleClient_insert_def handleClient_error_def
      register_def unregister_def update_conv' delete_conv'
      split: option.splits handler.splits)

lemma relay_inv_step: "relay_inv s \<Longrightarrow> relay_inv (fst (step s e))"
  by (simp add: relay_inv_def distinct_step agree_step bounded_step)

lemma fst_exec_Cons: "fst (exec s (e # es)) = fst (exec (fst (step s e)) es)"
  by (simp split: prod.splits)

lemma snd_exec_Cons: "snd (exec s (e # es)) = snd (step s e) @ snd (exec (fst (step s e)) es)"
  by (simp split: prod.splits)

lemma fst_exec_append: "fst (exec s (es @ es')) = fst (exec (fst (exec s es)) es')"
  by (induction es arbitrary: s) (simp_all only: append.simps fst_exec_Cons exec.simps(1) fst_conv)

lemma snd_exec_append:
  "snd (exec s (es @ es')) = snd (exec s es) @ snd (exec (fst (exec s es)) es')"
  by (induction es arbitrary: s)
    (simp_all only: append.simps fst_exec_Cons snd_exec_Cons exec.simps(1) fst_conv snd_conv append_assoc)

lemma relay_inv_exec: "relay_inv s \<Longrightarrow> relay_inv (fst (exec s es))"
  by (induction es arbitrary: s) (simp_all only: fst_exec_Cons exec.simps(1) fst_conv relay_inv_step)

lemma gone_step: "gone c s \<Longrightarrow> gone c (fst (step s e))"
proof -
  assume g: "gone c s"
  then have "relay_inv (fst (step s e))"
    by (simp add: gone_def relay_inv_step)
  moreover from g have "map_of (handlers (fst (step s e))) c = None \<and> c < next_conn (fst (step s e))"
    by (cases e)
      (auto simp: gone_def handleClient_start_def handleClient_insert_def handleClient_error_def
        register_def unregister_def update_conv' delete_conv'
        split: option.splits handler.splits)
  ultimately show ?thesis
    by (simp add: gone_def)
qed

lemma gone_exec: "gone c s \<Longrightarrow> gone c (fst (exec s es))"
  by (induction es arbitrary: s) (simp_all only: fst_exec_Cons exec.simps(1) fst_conv gone_step)

lemma gone_not_client: "gone c s \<Longrightarrow> c \<notin> fst ` set (clients s)"
proof
  assume g: "gone c s" and "c \<in> fst ` set (clients s)"
  then obtain cid where "map_of (clients s) c = Some cid"
    by (metis domD dom_map_of_conv_image_fst)
  with g show False
    by (simp add: gone_def relay_inv_def agree_def)
qed

lemma actions_for_broadcast:
  "actions_for c (broadcast failing m s) =
     concat (map (broadcast_one failing m) (filter (\<lambda>e. e = c) (map fst (clients s))))"
proof -
  have "actions_for c (concat (map (broadcast_one failing m) es)) =
      concat (map (broadcast_one failing m) (filter (\<lambda>e. e = c) es))" for es
    by (induction es) (auto simp: actions_for_def broadcast_one_def conn_of_def)
  then show ?thesis
    by (simp only: broadcast_def)
qed

lemma gone_step_silent: "gone c s \<Longrightarrow> actions_for c (snd (step s e)) = []"
proof (cases e)
  case (Recv c' m f)
  assume g: "gone c s"
  then have "filter (\<lambda>e. e = c) (map fst (clients s)) = []"
    using gone_not_client [OF g] by (auto simp: filter_empty_conv)
  then show ?thesis using Recv
    by (auto simp: handleClient_message_def actions_for_broadcast split: option.splits handler.splits)
      (simp add: actions_for_def)+
next
  case (ReadErr c')
  assume g: "gone c s"
  then show ?thesis using ReadErr
    by (auto simp: gone_def handleClient_error_def actions_for_def conn_of_def
        split: option.splits handler.splits)
qed (simp_all add: actions_for_def split: option.splits handler.splits)

lemma actions_for_append: "actions_for c (a @ b) = actions_for c a @ actions_for c b"
  by (simp add: actions_for_def)

lemma gone_exec_silent: "gone c s \<Longrightarrow> actions_for c (snd (exec s es)) = []"
proof (induction es arbitrary: s)
  case Nil
  then show ?case by (simp add: actions_for_def)
next
  case (Cons e es)
  from Cons.prems have "gone c (fst (step s e))" by (rule gone_step)
  from Cons.IH [OF this] gone_step_silent [OF Cons.prems, of e] show ?case
    by (simp only: snd_exec_Cons actions_for_append append_Nil)
qed

lemma read_error_gone:
  assumes "relay_inv s" and "map_of (handlers s) c = Some (Reading cid)"
  shows "gone c (fst (step s (ReadErr c)))"
proof -
  from assms(1) have "relay_inv (fst (step s (ReadErr c)))" by (rule relay_inv_step)
  moreover from assms have "c < next_conn s"
    by (fastforce simp: relay_inv_def bounded_def not_le [symmetric])
  ultimately show ?thesis using assms(2)
    by (simp add: gone_def handleClient_error_def delete_conv' unregister_def)
qed

text \<open>
  C6. When the read loop of a connection \<open>c\<close> sees a read error or the end of the
  input, \<open>c\<close> is removed from the registry in that step, before the task ends: in
  every later state of the relay (\<open>later\<close> may be empty: the very next snapshot)
  the registry has no entry for \<open>c\<close>, and nothing the relay does after the removal
  is about \<open>c\<close>: no broadcast writes to it.
\<close>

theorem read_error_unregisters:
  assumes "map_of (handlers (fst (exec relay_init evs))) c = Some (Reading cid)"
  shows "c \<notin> fst ` set (clients (fst (exec relay_init (evs @ ReadErr c # later)))) \<and>
         actions_for c (snd (exec (fst (exec relay_init (evs @ [ReadErr c]))) later)) = []"
proof -
  let ?s = "fst (exec relay_init evs)"
  let ?s1 = "fst (exec relay_init (evs @ [ReadErr c]))"
  have "relay_inv ?s"
    by (simp add: relay_inv_exec relay_inv_init)
  then have "gone c (fst (step ?s (ReadErr c)))"
    using assms by (rule read_error_gone)
  then have g: "gone c ?s1"
    by (simp only: fst_exec_append fst_exec_Cons exec.simps(1) fst_conv)
  have "fst (exec relay_init (evs @ ReadErr c # later)) = fst (exec ?s1 later)"
    using fst_exec_append [of relay_init "evs @ [ReadErr c]" later] by simp
  with gone_exec [OF g, of later] gone_exec_silent [OF g, of later] show ?thesis
    by (simp add: gone_not_client)
qed

theorem read_error_unregisters_witness:
  "map_of (handlers (fst (exec relay_init [Accept, Insert 0, Accept, Insert 1]))) 0
     = Some (Reading ''player1'') \<and>
   0 \<notin> fst ` set (clients (fst (exec relay_init
     ([Accept, Insert 0, Accept, Insert 1] @ ReadErr 0 # [Recv 1 ''hi'' []])))) \<and>
   actions_for 0 (snd (exec (fst (exec relay_init ([Accept, Insert 0, Accept, Insert 1] @ [ReadErr 0])))
     [Recv 1 ''hi'' []])) = []"
proof -
  have reading: "map_of (handlers (fst (exec relay_init [Accept, Insert 0, Accept, Insert 1]))) 0
      = Some (Reading ''player1'')"
    by (simp add: relay_eval)
  from read_error_unregisters [OF reading, of "[Recv 1 ''hi'' []]"] reading show ?thesis
    by blast
qed

lemma read_error_example:
  "snd (exec relay_init
     [Accept, Insert 0, Accept, Insert 1, Recv 1 ''a'' [], ReadErr 0, Recv 1 ''b'' []]) =
   [Delivered 0 ''player2,a'', Delivered 1 ''player2,a'', LogReadError 0, Close 0,
    Delivered 1 ''player2,b'']"
  by (simp add: relay_eval)

lemma filter_eq_distinct:
  "distinct xs \<Longrightarrow> filter (\<lambda>y. y = x) xs = (if x \<in> set xs then [x] else [])"
  by (induction xs) auto

lemma reading_registered:
  "relay_inv s \<Longrightarrow> map_of (handlers s) c = Some (Reading cid) \<Longrightarrow> map_of (clients s) c = Some cid"
  by (simp add: relay_inv_def agree_def)

lemma count_Delivered_broadcast:
  "distinct xs \<Longrightarrow>
   count_list (concat (map (broadcast_one failing m) xs)) (Delivered e m) =
     (if e \<in> set xs \<and> e \<notin> set failing then 1 else 0)"
  by (induction xs) (auto simp: broadcast_one_def)

lemma count_WriteFailed_broadcast:
  "distinct xs \<Longrightarrow>
   count_list (concat (map (broadcast_one failing m) xs)) (WriteFailed e m) =
     (if e \<in> set xs \<and> e \<in> set failing then 1 else 0)"
  by (induction xs) (auto simp: broadcast_one_def)

lemma set_broadcast:
  "set (concat (map (broadcast_one failing m) xs)) =
     (\<lambda>e. Delivered e m) ` (set xs - set failing) \<union>
     (\<lambda>e. WriteFailed e m) ` (set xs \<inter> set failing) \<union>
     LogSendError ` (set xs \<inter> set failing)"
  by (induction xs) (auto simp: broadcast_one_def)

lemma broadcast_explicit:
  "broadcast failing m s =
     concat (map (\<lambda>e. if e \<in> set failing then [WriteFailed e m, LogSendError e] else [Delivered e m])
       (map fst (clients s)))"
proof -
  have "broadcast_one failing m = (\<lambda>e. if e \<in> set failing then [WriteFailed e m, LogSendError e] else [Delivered e m])"
    by (rule ext) (simp add: broadcast_one_def)
  then show ?thesis
    by (simp only: broadcast_def)
qed

text \<open>
  C7. When the task of a connection \<open>c\<close> with identity \<open>cid\<close> has read a record,
  the relay forms one message \<open>m\<close>, the identity, a comma and the record as it was
  read, and writes it to every endpoint of the registry in turn: the output of the
  step is one write per registered endpoint, a delivery of \<open>m\<close> where the write
  succeeds, a failed write of \<open>m\<close> and a line of the log where it fails. Every
  registered endpoint whose write succeeds is delivered \<open>m\<close> exactly once, the
  sender \<open>c\<close> is registered under \<open>cid\<close> and so is one of the receivers, no
  other endpoint and no other message is written, and the registry after the step
  is the registry before it: an endpoint whose write failed stays registered.
\<close>

theorem relay_fanout:
  assumes "s = fst (exec relay_init evs)"
    and "map_of (handlers s) c = Some (Reading cid)"
    and "out = snd (step s (Recv c message failing))"
    and "m = cid @ '','' @ message"
  shows "fst (step s (Recv c message failing)) = s \<and>
         map_of (clients s) c = Some cid \<and> c \<in> fst ` set (clients s) \<and>
         distinct (map fst (clients s)) \<and>
         out = concat (map (\<lambda>e. if e \<in> set failing then [WriteFailed e m, LogSendError e]
                                 else [Delivered e m]) (map fst (clients s))) \<and>
         (\<forall>e. e \<in> fst ` set (clients s) \<and> e \<notin> set failing \<longrightarrow> count_list out (Delivered e m) = 1) \<and>
         (\<forall>e. e \<in> fst ` set (clients s) \<and> e \<in> set failing \<longrightarrow>
            count_list out (WriteFailed e m) = 1 \<and> LogSendError e \<in> set out) \<and>
         (\<forall>e m'. Delivered e m' \<in> set out \<or> WriteFailed e m' \<in> set out \<longrightarrow>
            e \<in> fst ` set (clients s) \<and> m' = m)"
proof -
  have inv: "relay_inv s"
    by (simp add: assms(1) relay_inv_exec relay_inv_init)
  then have d: "distinct (map fst (clients s))"
    by (simp add: relay_inv_def)
  have reg: "map_of (clients s) c = Some cid"
    using inv assms(2) by (rule reading_registered)
  then have mem: "c \<in> fst ` set (clients s)"
    by (metis domI dom_map_of_conv_image_fst)
  have out: "out = concat (map (broadcast_one failing m) (map fst (clients s)))"
    using assms(2) by (simp add: assms(3,4) handleClient_message_def broadcast_def)
  have same: "fst (step s (Recv c message failing)) = s"
    using assms(2) by simp
  have explicit: "out = concat (map (\<lambda>e. if e \<in> set failing then [WriteFailed e m, LogSendError e]
                                 else [Delivered e m]) (map fst (clients s)))"
    using out broadcast_explicit [of failing m s] by (simp only: broadcast_def)
  have one: "e \<in> fst ` set (clients s) \<and> e \<notin> set failing \<longrightarrow> count_list out (Delivered e m) = 1" for e
    unfolding out using count_Delivered_broadcast [OF d, of failing m e] by simp
  have failed: "e \<in> fst ` set (clients s) \<and> e \<in> set failing \<longrightarrow>
      count_list out (WriteFailed e m) = 1 \<and> LogSendError e \<in> set out" for e
  proof (intro impI conjI)
    assume h: "e \<in> fst ` set (clients s) \<and> e \<in> set failing"
    then show "count_list out (WriteFailed e m) = 1"
      unfolding out using count_WriteFailed_broadcast [OF d, of failing m e] by simp
    from h have "e \<in> set (map fst (clients s)) \<inter> set failing"
      by simp
    then show "LogSendError e \<in> set out"
      unfolding out set_broadcast by blast
  qed
  have only: "Delivered e m' \<in> set out \<or> WriteFailed e m' \<in> set out \<longrightarrow>
      e \<in> fst ` set (clients s) \<and> m' = m" for e m'
  proof
    assume "Delivered e m' \<in> set out \<or> WriteFailed e m' \<in> set out"
    then have "e \<in> set (map fst (clients s)) \<and> m' = m"
      unfolding out set_broadcast by blast
    then show "e \<in> fst ` set (clients s) \<and> m' = m"
      by simp
  qed
  from same reg mem d explicit one failed only show ?thesis
    by blast
qed

theorem relay_fanout_witness:
  "map_of (handlers (fst (exec relay_init [Accept, Insert 0, Accept, Insert 1, Accept, Insert 2]))) 1
     = Some (Reading ''player2'') \<and>
   clients (fst (step (fst (exec relay_init [Accept, Insert 0, Accept, Insert 1, Accept, Insert 2]))
       (Recv 1 ''1.00,2.00,3,true'' [2])))
     = [(0, ''player1''), (1, ''player2''), (2, ''player3'')] \<and>
   snd (step (fst (exec relay_init [Accept, Insert 0, Accept, Insert 1, Accept, Insert 2]))
       (Recv 1 ''1.00,2.00,3,true'' [2]))
     = [Delivered 0 ''player2,1.00,2.00,3,true'', Delivered 1 ''player2,1.00,2.00,3,true'',
        WriteFailed 2 ''player2,1.00,2.00,3,true'', LogSendError 2] \<and>
   count_list (snd (step (fst (exec relay_init [Accept, Insert 0, Accept, Insert 1, Accept, Insert 2]))
       (Recv 1 ''1.00,2.00,3,true'' [2]))) (Delivered 1 (''player2'' @ '','' @ ''1.00,2.00,3,true'')) = 1"
proof -
  let ?s = "fst (exec relay_init [Accept, Insert 0, Accept, Insert 1, Accept, Insert 2])"
  have reading: "map_of (handlers ?s) 1 = Some (Reading ''player2'')"
    by (simp add: relay_eval)
  have registry: "clients ?s = [(0, ''player1''), (1, ''player2''), (2, ''player3'')]"
    by (simp add: relay_eval)
  from relay_fanout [OF refl reading refl refl, of "''1.00,2.00,3,true''" "[2]"]
  have same: "fst (step ?s (Recv 1 ''1.00,2.00,3,true'' [2])) = ?s"
    and out: "snd (step ?s (Recv 1 ''1.00,2.00,3,true'' [2])) =
      concat (map (\<lambda>e. if e \<in> set [2] then [WriteFailed e (''player2'' @ '','' @ ''1.00,2.00,3,true''), LogSendError e]
                        else [Delivered e (''player2'' @ '','' @ ''1.00,2.00,3,true'')]) (map fst (clients ?s)))"
    and one: "1 \<in> fst ` set (clients ?s) \<and> 1 \<notin> set [2::nat] \<longrightarrow>
      count_list (snd (step ?s (Recv 1 ''1.00,2.00,3,true'' [2])))
        (Delivered 1 (''player2'' @ '','' @ ''1.00,2.00,3,true'')) = 1"
    by blast+
  from one registry have "count_list (snd (step ?s (Recv 1 ''1.00,2.00,3,true'' [2])))
        (Delivered 1 (''player2'' @ '','' @ ''1.00,2.00,3,true'')) = 1"
    by simp
  moreover from out registry have "snd (step ?s (Recv 1 ''1.00,2.00,3,true'' [2]))
     = [Delivered 0 ''player2,1.00,2.00,3,true'', Delivered 1 ''player2,1.00,2.00,3,true'',
        WriteFailed 2 ''player2,1.00,2.00,3,true'', LogSendError 2]"
    by simp
  moreover from same registry have "clients (fst (step ?s (Recv 1 ''1.00,2.00,3,true'' [2])))
     = [(0, ''player1''), (1, ''player2''), (2, ''player3'')]"
    by simp
  ultimately show ?thesis
    using reading by blast
qed

subsection \<open>The registry\<close>

lemma unregister_twice: "unregister c (unregister c s) = unregister c s"
  by (simp add: unregister_def delete_idem)

lemma unregister_absent: "c \<notin> fst ` set (clients s) \<Longrightarrow> unregister c s = s"
  by (simp add: unregister_def delete_id)

text \<open>
  C9. \<open>unregister\<close> is idempotent: removing an endpoint twice leaves the registry in
  the state one removal leaves it in, and removing an endpoint that has no entry
  returns the registry as it was (Go's \<^verbatim>\<open>delete\<close> on a missing key has no error
  to report).
\<close>

theorem unregister_idempotent:
  "unregister c (unregister c s) = unregister c s \<and>
   (c \<notin> fst ` set (clients s) \<longrightarrow> unregister c s = s)"
  using unregister_twice unregister_absent by blast

theorem unregister_idempotent_witness:
  "unregister 1 (unregister 1 \<lparr>clients = [(0, ''player1''), (1, ''player2'')]\<rparr>)
     = \<lparr>clients = [(0, ''player1'')]\<rparr> \<and>
   unregister 1 \<lparr>clients = [(0, ''player1''), (1, ''player2'')]\<rparr>
     = \<lparr>clients = [(0, ''player1'')]\<rparr> \<and>
   (1::nat) \<notin> fst ` set (clients \<lparr>clients = [(0, ''player1'')]\<rparr>) \<and>
   unregister 1 \<lparr>clients = [(0, ''player1'')]\<rparr> = \<lparr>clients = [(0, ''player1'')]\<rparr>"
proof -
  let ?s = "\<lparr>clients = [(0::nat, ''player1'')]\<rparr>"
  have absent: "(1::nat) \<notin> fst ` set (clients ?s)"
    by simp
  have once: "unregister 1 \<lparr>clients = [(0, ''player1''), (1, ''player2'')]\<rparr> = ?s"
    by (simp add: unregister_def)
  from unregister_idempotent [of 1 ?s] absent have "unregister 1 ?s = ?s"
    by blast
  with once absent show ?thesis
    by simp
qed

subsection \<open>Identities\<close>

text \<open>
  C1. The identity of a registration is \<open>player\<close> and the size of the registry plus
  one (line 26), so it is not fresh. In the first execution below two connections
  register, the first one leaves and a third one registers: the third gets
  \<open>player2\<close>, the identity the second still holds. In the second execution two
  tasks read the size before either inserts (line 26 is outside the lock): both
  register as \<open>player1\<close>. In both, the registry holds two equal identities.
\<close>

theorem identity_collision:
  "clients (fst (exec relay_init [Accept, Insert 0, Accept, Insert 1, ReadErr 0, Accept, Insert 2]))
     = [(1, ''player2''), (2, ''player2'')] \<and>
   clients (fst (exec relay_init [Accept, Accept, Insert 0, Insert 1]))
     = [(0, ''player1''), (1, ''player1'')]"
  by (simp add: relay_eval)

section \<open>The codec: splitting, trimming, formatting and parsing\<close>

subsection \<open>Split\<close>

lemma Split_not_Nil: "Split s sep \<noteq> []"
  by (induction s) (auto split: list.splits)

lemma length_Split: "length (Split s sep) = Suc (count_list s sep)"
  by (induction s) (auto split: list.splits simp: Split_not_Nil)

lemma Split_no_sep: "sep \<notin> set a \<Longrightarrow> Split a sep = [a]"
  by (induction a) auto

lemma Split_append: "sep \<notin> set a \<Longrightarrow> Split (a @ sep # b) sep = a # Split b sep"
  by (induction a) auto

subsection \<open>characters of the formatted fields\<close>

lemma digit_char_in: "d < 10 \<Longrightarrow> digit_char d \<in> digit_chars"
  unfolding digit_char_def digit_chars_def by (rule nth_mem) simp

lemma fmt_nat_chars: "set (fmt_nat n) \<subseteq> digit_chars"
proof (induction n rule: fmt_nat.induct)
  case (1 n)
  show ?case
  proof (cases "n < 10")
    case True
    then show ?thesis by (simp add: fmt_nat_digit digit_char_in)
  next
    case False
    with 1 show ?thesis by (simp add: fmt_nat_more digit_char_in)
  qed
qed

lemma fmt_nat_not_Nil: "fmt_nat n \<noteq> []"
  by (cases "n < 10") (simp_all add: fmt_nat_digit fmt_nat_more)

lemma fmt_d_chars: "set (fmt_d i) \<subseteq> insert CHR ''-'' digit_chars"
  using fmt_nat_chars by (auto simp: fmt_d_def)

lemma fmt_v_chars: "set (fmt_v b) \<subseteq> set ''truefals''"
  by (simp add: fmt_v_def)

lemma fmt_2f_chars: "set (fmt_2f v) \<subseteq> digit_chars \<union> set ''-.+InfNa''"
proof (cases v)
  case (Fin r)
  have "nat k mod 100 div 10 < 10" "nat k mod 10 < 10" for k :: int
    by simp_all
  then show ?thesis using Fin fmt_nat_chars
    by (auto simp: fmt_fixed2_def Let_def digit_char_in)
qed (simp_all add: digit_chars_def)

lemma no_sep_digit: "CHR '','' \<notin> digit_chars" "CHR '';'' \<notin> digit_chars"
  by (simp_all add: digit_chars_def)

lemma no_sep_2f: "CHR '','' \<notin> set (fmt_2f v)" "CHR '';'' \<notin> set (fmt_2f v)"
  using fmt_2f_chars [of v] by (auto simp: digit_chars_def)

lemma no_sep_d: "CHR '','' \<notin> set (fmt_d i)" "CHR '';'' \<notin> set (fmt_d i)"
  using fmt_d_chars [of i] by (auto simp: digit_chars_def)

lemma no_sep_v: "CHR '','' \<notin> set (fmt_v b)" "CHR '';'' \<notin> set (fmt_v b)"
  by (simp_all add: fmt_v_def)

lemma no_sep_clientID: "CHR '','' \<notin> set (clientID_of s)" "CHR '';'' \<notin> set (clientID_of s)"
  using no_sep_d by (simp_all add: clientID_of_def)

subsection \<open>TrimSpace on a relayed line\<close>

lemma TrimLeft_p: "TrimLeft (CHR ''p'' # s) = CHR ''p'' # s"
proof (cases s)
  case Nil
  then show ?thesis by (simp add: isSpace1_def)
next
  case (Cons b s1)
  then show ?thesis
    by (cases s1) (simp_all add: isSpace1_def isSpace2_def isSpace3_def)
qed

lemma TrimRight_rev_e: "TrimRight_rev (CHR 0x0A # CHR ''e'' # s) = CHR ''e'' # s"
proof (cases s)
  case Nil
  then show ?thesis by (simp add: isSpace1_def isSpace2_def)
next
  case (Cons b s1)
  then show ?thesis
    by (cases s1) (simp_all add: isSpace1_def isSpace2_def isSpace3_def)
qed

lemma TrimSpace_line:
  assumes "t \<noteq> []" and "hd t = CHR ''p''" and "last t = CHR ''e''"
  shows "TrimSpace (t @ [CHR 0x0A]) = t"
proof -
  from assms(1,2) obtain t1 where t: "t = CHR ''p'' # t1"
    by (cases t) auto
  with assms(3) have "t1 \<noteq> []"
    by auto
  with t assms(3) have "t1 = butlast t1 @ [CHR ''e'']"
    by (metis append_butlast_last_id last_ConsR)
  then obtain m where m: "t1 = m @ [CHR ''e'']"
    by blast
  have "TrimRight (CHR ''p'' # m @ [CHR ''e'', CHR 0x0A]) = CHR ''p'' # m @ [CHR ''e'']"
    by (simp add: TrimRight_def TrimRight_rev_e)
  with t m show ?thesis
    by (simp add: TrimSpace_def TrimLeft_p)
qed

subsection \<open>Parsing what was formatted\<close>

lemma digit_val_digit_char: "d < 10 \<Longrightarrow> digit_val (digit_char d) = Some d"
proof -
  assume "d < 10"
  then have "d \<in> {0, 1, 2, 3, 4, 5, 6, 7, 8, 9}"
    by auto
  then show ?thesis
    by (auto simp: digit_val_def digit_char_def)
qed

lemma digit_val_chars: "c \<in> digit_chars \<Longrightarrow> digit_val c \<noteq> None"
  by (auto simp: digit_chars_def digit_val_def)

lemma ParseUint_loop_append:
  "ParseUint_loop (xs @ ys) n =
     (case ParseUint_loop xs n of (m, None) \<Rightarrow> ParseUint_loop ys m | (m, Some e) \<Rightarrow> (m, Some e))"
  by (induction xs arbitrary: n) (auto split: option.splits)

lemma ParseUint_loop_fmt_nat: "n \<le> maxUint64 \<Longrightarrow> ParseUint_loop (fmt_nat n) 0 = (n, None)"
proof (induction n rule: fmt_nat.induct)
  case (1 n)
  show ?case
  proof (cases "n < 10")
    case True
    with 1(2) show ?thesis
      by (simp add: fmt_nat_digit digit_val_digit_char maxUint64_def)
  next
    case False
    from 1(2) have "n div 10 \<le> maxUint64"
      by simp
    with 1(1) False have "ParseUint_loop (fmt_nat (n div 10)) 0 = (n div 10, None)"
      by simp
    moreover from 1(2) have "\<not> maxUint64 div 10 + 1 \<le> n div 10"
      by (simp add: maxUint64_def)
    moreover from 1(2) have "\<not> maxUint64 < n div 10 * 10 + n mod 10"
      by simp
    ultimately show ?thesis using False
      by (simp add: fmt_nat_more ParseUint_loop_append digit_val_digit_char)
  qed
qed

lemma hd_fmt_nat: "hd (fmt_nat n) \<in> digit_chars"
  using fmt_nat_chars [of n] fmt_nat_not_Nil [of n] by (cases "fmt_nat n") auto

lemma hd_fmt_nat_sign: "hd (fmt_nat n) \<noteq> CHR ''-''" "hd (fmt_nat n) \<noteq> CHR ''+''"
  using hd_fmt_nat [of n] by (auto simp: digit_chars_def)

lemma Atoi_fmt_d:
  assumes "minInt64 \<le> i" and "i \<le> maxInt64"
  shows "Atoi (fmt_d i) = (i, None)"
proof (cases "i < 0")
  case True
  with assms(1) have "nat (- i) \<le> maxUint64"
    by (simp add: minInt64_def maxUint64_def)
  then have "ParseUint_loop (fmt_nat (nat (- i))) 0 = (nat (- i), None)"
    by (rule ParseUint_loop_fmt_nat)
  with True assms(1) show ?thesis
    by (simp add: Atoi_def fmt_d_def ParseUint_def fmt_nat_not_Nil minInt64_def)
next
  case False
  with assms(2) have "nat i \<le> maxUint64"
    by (simp add: maxInt64_def maxUint64_def)
  then have "ParseUint_loop (fmt_nat (nat i)) 0 = (nat i, None)"
    by (rule ParseUint_loop_fmt_nat)
  with False assms(2) show ?thesis
    by (simp add: Atoi_def fmt_d_def ParseUint_def fmt_nat_not_Nil hd_fmt_nat_sign maxInt64_def)
qed

lemma ParseBool_fmt_v: "ParseBool (fmt_v b) = (b, None)"
  by (simp add: ParseBool_def fmt_v_def)

subsection \<open>A line of the relay, as the client splits it\<close>

lemma relayed_line_fields:
  "Split (clientID_of s @ CHR '','' # fmt_2f x @ CHR '','' # fmt_2f y @ CHR '','' # fmt_d d @ CHR '','' # fmt_v b) (CHR '','')
     = [clientID_of s, fmt_2f x, fmt_2f y, fmt_d d, fmt_v b]"
  using Split_append [OF no_sep_clientID(1), of s]
    Split_append [OF no_sep_2f(1)] Split_append [OF no_sep_d(1)] Split_no_sep [OF no_sep_v(1)]
  by simp

lemma relayed_line_records:
  "Split (clientID_of s @ CHR '','' # fmt_2f x @ CHR '','' # fmt_2f y @ CHR '','' # fmt_d d @ CHR '','' # fmt_v b) (CHR '';'')
     = [clientID_of s @ CHR '','' # fmt_2f x @ CHR '','' # fmt_2f y @ CHR '','' # fmt_d d @ CHR '','' # fmt_v b]"
  by (rule Split_no_sep) (simp add: no_sep_clientID no_sep_2f no_sep_d no_sep_v)

lemma relayed_line_trim:
  "TrimSpace (clientID_of s @ CHR '','' # encode p)
     = clientID_of s @ CHR '','' # fmt_2f (X (position p)) @ CHR '','' # fmt_2f (Y (position p)) @ CHR '','' #
       fmt_d (direction p) @ CHR '','' # fmt_v (isMoving p)"
proof -
  let ?t = "clientID_of s @ CHR '','' # fmt_2f (X (position p)) @ CHR '','' # fmt_2f (Y (position p)) @ CHR '','' #
       fmt_d (direction p) @ CHR '','' # fmt_v (isMoving p)"
  have "?t \<noteq> []" "hd ?t = CHR ''p''"
    by (simp_all add: clientID_of_def)
  moreover have "last ?t = CHR ''e''"
    by (simp add: fmt_v_def)
  ultimately have "TrimSpace (?t @ [CHR 0x0A]) = ?t"
    by (rule TrimSpace_line)
  then show ?thesis
    by (simp add: encode_def)
qed

lemma decode_relayed:
  assumes "minInt64 \<le> direction p" and "direction p \<le> maxInt64"
  shows "map (decode lib) (Split (TrimSpace (clientID_of s @ CHR '','' # encode p)) (CHR '';'')) =
     [Some (clientID_of s, fst (ParseFloat lib (fmt_2f (X (position p)))),
            fst (ParseFloat lib (fmt_2f (Y (position p)))), direction p, isMoving p)]"
  by (simp add: relayed_line_trim relayed_line_records decode_def relayed_line_fields
      Atoi_fmt_d [OF assms] ParseBool_fmt_v)

subsection \<open>Rounding to two fractional digits and reading it back\<close>

lemma round_half_even_near: "\<bar>of_int (round_half_even q) - q\<bar> \<le> 1 / 2"
proof -
  have "of_int \<lfloor>q\<rfloor> \<le> q" "q < of_int \<lfloor>q\<rfloor> + 1"
    by linarith+
  then show ?thesis
    by (auto simp: round_half_even_def Let_def)
qed

lemma round_half_even_nonneg: "0 \<le> q \<Longrightarrow> 0 \<le> round_half_even q"
  by (auto simp: round_half_even_def Let_def intro: add_nonneg_nonneg)

lemma round_half_even_0: "round_half_even 0 = 0"
  by (simp add: round_half_even_def)

lemma round2_near: "\<bar>round2 r - r\<bar> \<le> 1 / 200"
proof -
  let ?n = "rat_of_int (round_half_even (\<bar>r\<bar> * 100))"
  have near: "\<bar>?n - \<bar>r\<bar> * 100\<bar> \<le> 1 / 2"
    by (rule round_half_even_near)
  have "round2 r - r = sgn r * ((?n - \<bar>r\<bar> * 100) / 100)"
    by (cases "r < 0") (simp_all add: round2_def sgn_if)
  then have "\<bar>round2 r - r\<bar> = \<bar>sgn r\<bar> * (\<bar>?n - \<bar>r\<bar> * 100\<bar> / 100)"
    by (simp only: abs_mult abs_divide) simp
  also have "\<dots> \<le> 1 * (\<bar>?n - \<bar>r\<bar> * 100\<bar> / 100)"
    by (rule mult_right_mono) (simp_all add: abs_sgn_eq)
  also from near have "\<dots> \<le> 1 / 200"
    by simp
  finally show ?thesis .
qed

lemma digits_val_append:
  "digits_val (xs @ ys) n = (case digits_val xs n of None \<Rightarrow> None | Some m \<Rightarrow> digits_val ys m)"
  by (induction xs arbitrary: n) (auto split: option.splits)

lemma digits_val_fmt_nat: "digits_val (fmt_nat n) 0 = Some n"
proof (induction n rule: fmt_nat.induct)
  case (1 n)
  show ?case
  proof (cases "n < 10")
    case True
    then show ?thesis by (simp add: fmt_nat_digit digit_val_digit_char)
  next
    case False
    with 1 show ?thesis
      by (simp add: fmt_nat_more digits_val_append digit_val_digit_char)
  qed
qed

lemma no_dot_fmt_nat: "CHR ''.'' \<notin> set (fmt_nat n)"
  using fmt_nat_chars [of n] by (auto simp: digit_chars_def)

lemma takeWhile_dot: "CHR ''.'' \<notin> set a \<Longrightarrow> takeWhile (\<lambda>c. c \<noteq> CHR ''.'') (a @ CHR ''.'' # b) = a"
  by (induction a) auto

lemma dropWhile_dot: "CHR ''.'' \<notin> set a \<Longrightarrow> dropWhile (\<lambda>c. c \<noteq> CHR ''.'') (a @ CHR ''.'' # b) = CHR ''.'' # b"
  by (induction a) auto

lemma two_digits: "(n div 100 * 10 + n mod 100 div 10) * 10 + n mod 10 = (n::nat)"
proof -
  have "n mod 10 = n mod 100 mod 10"
    by (simp add: mod_mod_cancel)
  then have "n mod 100 div 10 * 10 + n mod 10 = n mod 100"
    by (simp only: div_mult_mod_eq)
  then have "(n div 100 * 10 + n mod 100 div 10) * 10 + n mod 10 = n div 100 * 100 + n mod 100"
    by (simp only: add_mult_distrib mult.assoc add.assoc)
  then show ?thesis
    by (simp only: div_mult_mod_eq)
qed

lemma digits_val_fixed:
  "digits_val (fmt_nat (n div 100) @ [digit_char (n mod 100 div 10), digit_char (n mod 10)]) 0 = Some n"
proof -
  have "n mod 100 div 10 < 10" "n mod 10 < 10"
    by simp_all
  then show ?thesis
    by (simp only: digits_val_append digits_val_fmt_nat digits_val.simps digit_val_digit_char
        option.case two_digits)
qed

lemma ParseFloat_dec_fixed2:
  "ParseFloat_dec (fmt_fixed2 neg a) =
     (let v = of_nat (nat (round_half_even (a * 100))) / 100
      in (if neg then (if v = 0 then NegZero else Fin (- v)) else Fin v, None))"
proof -
  let ?n = "nat (round_half_even (a * 100))"
  let ?body = "fmt_nat (?n div 100) @ CHR ''.'' # [digit_char (?n mod 100 div 10), digit_char (?n mod 10)]"
  have d: "?n mod 100 div 10 < 10" "?n mod 10 < 10"
    by simp_all
  have val: "digits_val (fmt_nat (?n div 100) @ [digit_char (?n mod 100 div 10), digit_char (?n mod 10)]) 0 = Some ?n"
    by (rule digits_val_fixed)
  have tw: "takeWhile (\<lambda>c. c \<noteq> CHR ''.'') ?body = fmt_nat (?n div 100)"
    by (rule takeWhile_dot) (rule no_dot_fmt_nat)
  have dw: "dropWhile (\<lambda>c. c \<noteq> CHR ''.'') ?body = CHR ''.'' # [digit_char (?n mod 100 div 10), digit_char (?n mod 10)]"
    by (rule dropWhile_dot) (rule no_dot_fmt_nat)
  have body: "fmt_fixed2 neg a = (if neg then CHR ''-'' # ?body else ?body)"
    by (simp add: fmt_fixed2_def Let_def)
  have hd: "hd ?body \<noteq> CHR ''-''" "hd ?body \<noteq> CHR ''+''"
    using hd_fmt_nat_sign [of "?n div 100"] fmt_nat_not_Nil [of "?n div 100"] by simp_all
  show ?thesis
  proof (cases neg)
    case True
    then show ?thesis
      unfolding body ParseFloat_dec_def using val tw dw
      by (simp add: Let_def fmt_nat_not_Nil del: of_nat_nat)
  next
    case False
    then show ?thesis
      unfolding body ParseFloat_dec_def using val tw dw hd
      by (simp add: Let_def fmt_nat_not_Nil del: of_nat_nat)
  qed
qed

lemma ParseFloat_dec_fmt_2f:
  "ParseFloat_dec (fmt_2f (Fin r)) =
     (if r < 0 \<and> round2 r = 0 then NegZero else Fin (round2 r), None)"
proof -
  have "0 \<le> round_half_even (\<bar>r\<bar> * 100)"
    by (rule round_half_even_nonneg) simp
  then have "rat_of_nat (nat (round_half_even (\<bar>r\<bar> * 100))) = of_int (round_half_even (\<bar>r\<bar> * 100))"
    by simp
  then show ?thesis
    by (auto simp: ParseFloat_dec_fixed2 Let_def round2_def sgn_if round_half_even_0 simp del: of_nat_nat)
qed

subsection \<open>The round trip\<close>

lemma exact_lib_reads_nearest: "reads_decimals_nearest exact_lib"
  by (auto simp: reads_decimals_nearest_def exact_lib_def)

lemma round_half_even_le: "q \<le> of_int M \<Longrightarrow> round_half_even q \<le> M"
proof -
  assume le: "q \<le> of_int M"
  then have f: "\<lfloor>q\<rfloor> \<le> M"
    by (simp add: floor_le_iff)
  show ?thesis
  proof (cases "\<lfloor>q\<rfloor> = M")
    case True
    with le have "q = of_int M"
      using of_int_floor_le [of q] by simp
    then show ?thesis
      by (simp add: round_half_even_def)
  next
    case False
    with f have "\<lfloor>q\<rfloor> + 1 \<le> M"
      by simp
    with f show ?thesis
      by (auto simp: round_half_even_def Let_def)
  qed
qed

lemma round_half_even_zero_or_pos: "0 \<le> q \<Longrightarrow> round_half_even q = 0 \<or> 1 \<le> round_half_even q"
  using round_half_even_nonneg [of q] by linarith

lemma abs_round2: "\<bar>round2 r\<bar> = of_int (round_half_even (\<bar>r\<bar> * 100)) / 100"
proof -
  have "0 \<le> round_half_even (\<bar>r\<bar> * 100)"
    by (rule round_half_even_nonneg) simp
  then show ?thesis
    by (cases "r = 0") (simp_all add: round2_def abs_mult round_half_even_0)
qed

lemma max_float64_int: "max_float64 * 100 = of_int ((2 ^ 53 - 1) * 2 ^ 971 * 100)"
  by (simp add: max_float64_def)

lemma round2_normal_range:
  assumes "\<bar>r\<bar> \<le> max_float64"
  shows "normal_range (round2 r)"
proof -
  let ?n = "round_half_even (\<bar>r\<bar> * 100)"
  from assms have "\<bar>r\<bar> * 100 \<le> of_int ((2 ^ 53 - 1) * 2 ^ 971 * 100)"
    by (simp only: max_float64_int [symmetric])
  then have "?n \<le> (2 ^ 53 - 1) * 2 ^ 971 * 100"
    by (rule round_half_even_le)
  then have "rat_of_int ?n \<le> of_int ((2 ^ 53 - 1) * 2 ^ 971 * 100)"
    by (simp only: of_int_le_iff)
  then have upper: "\<bar>round2 r\<bar> \<le> max_float64"
    by (simp only: abs_round2 max_float64_int [symmetric])
  have "?n = 0 \<or> 1 \<le> ?n"
    by (rule round_half_even_zero_or_pos) simp
  then show ?thesis
  proof
    assume "?n = 0"
    then show ?thesis
      by (simp add: normal_range_def round2_def)
  next
    assume "1 \<le> ?n"
    then have "1 \<le> rat_of_int ?n"
      by simp
    then have "1 / 100 \<le> \<bar>round2 r\<bar>"
      by (simp only: abs_round2 divide_le_cancel) simp
    moreover have "(1::rat) / 2 ^ 1022 \<le> 1 / 100"
    proof -
      have "(100::rat) \<le> 2 ^ 7"
        by simp
      also have "\<dots> \<le> 2 ^ 1022"
        by (rule power_increasing) simp_all
      finally show ?thesis
        by (simp add: frac_le)
    qed
    ultimately have "1 / 2 ^ 1022 \<le> \<bar>round2 r\<bar>"
      by (rule order_trans [rotated])
    with upper show ?thesis
      by (simp only: normal_range_def simp_thms)
  qed
qed

lemma decoded_coordinate_near:
  assumes "reads_decimals_nearest lib" and "\<bar>r\<bar> \<le> max_float64"
  shows "\<exists>q. f_rat (fst (ParseFloat lib (fmt_2f (Fin r)))) = Some q \<and>
           \<bar>q - r\<bar> \<le> 1 / 200 + \<bar>round2 r\<bar> / 2 ^ 53"
proof -
  let ?t = "if r < 0 \<and> round2 r = 0 then NegZero else Fin (round2 r)"
  have lit: "ParseFloat_dec (fmt_2f (Fin r)) = (?t, None)"
    by (rule ParseFloat_dec_fmt_2f)
  have val: "f_rat ?t = Some (round2 r)"
    by simp
  from assms(2) have "normal_range (round2 r)"
    by (rule round2_normal_range)
  with assms(1) lit val obtain q
    where q: "f_rat (fst (ParseFloat lib (fmt_2f (Fin r)))) = Some q"
      and near: "\<bar>q - round2 r\<bar> \<le> \<bar>round2 r\<bar> / 2 ^ 53"
    unfolding reads_decimals_nearest_def by blast
  have "\<bar>q - r\<bar> \<le> \<bar>q - round2 r\<bar> + \<bar>round2 r - r\<bar>"
    by simp
  with near round2_near [of r] have "\<bar>q - r\<bar> \<le> 1 / 200 + \<bar>round2 r\<bar> / 2 ^ 53"
    by linarith
  with q show ?thesis
    by blast
qed

lemma abs_round2_le: "\<bar>round2 r\<bar> \<le> \<bar>r\<bar> + 1 / 200"
  using round2_near [of r] by linarith

lemma decoded_coordinate_bound:
  assumes "reads_decimals_nearest lib" and "\<bar>r\<bar> \<le> max_float64"
  shows "\<exists>q. f_rat (fst (ParseFloat lib (fmt_2f (Fin r)))) = Some q \<and>
           \<bar>q - r\<bar> \<le> 1 / 200 + (\<bar>r\<bar> + 1 / 200) / 2 ^ 53"
proof -
  from decoded_coordinate_near [OF assms] obtain q
    where q: "f_rat (fst (ParseFloat lib (fmt_2f (Fin r)))) = Some q"
      and near: "\<bar>q - r\<bar> \<le> 1 / 200 + \<bar>round2 r\<bar> / 2 ^ 53"
    by blast
  have "\<bar>round2 r\<bar> / 2 ^ 53 \<le> (\<bar>r\<bar> + 1 / 200) / 2 ^ 53"
    using abs_round2_le [of r] by (simp add: divide_right_mono)
  with near have "\<bar>q - r\<bar> \<le> 1 / 200 + (\<bar>r\<bar> + 1 / 200) / 2 ^ 53"
    by linarith
  with q show ?thesis
    by blast
qed

text \<open>
  The rounding of \<^verbatim>\<open>%.2f\<close> alone loses up to 0.005, and reading the text back
  as a \<^verbatim>\<open>float64\<close> adds its own rounding: 0.125 is printed as \<open>0.12\<close> (the tie
  goes to the even digit), and the \<^verbatim>\<open>float64\<close> nearest to 0.12, which is
  1080863910568919 / 9007199254740992, is more than 0.005 away from 0.125.
\<close>

lemma tie_to_even_and_back:
  "fmt_2f (Fin (1 / 8)) = ''0.12'' \<and>
   1 / 200 < \<bar>1080863910568919 / 9007199254740992 - (1 / 8 :: rat)\<bar> \<and>
   \<bar>1080863910568919 / 9007199254740992 - (1 / 8 :: rat)\<bar> \<le> 1 / 200 + (\<bar>1 / 8\<bar> + 1 / 200) / 2 ^ 53"
proof -
  have "\<lfloor>25 / 2 :: rat\<rfloor> = 12"
    by (rule floor_unique) simp_all
  then have "fmt_2f (Fin (1 / 8)) = ''0.12''"
    by (simp add: fmt_eval)
  then show ?thesis
    by simp
qed

text \<open>
  C4. What the publisher encodes is decoded by a peer only after the relay has put
  the identity in front of it. For every character whose facing is an \<^verbatim>\<open>int\<close> of
  64 bits (so for the facings 0 to 3) and whose coordinates are finite
  \<^verbatim>\<open>float64\<close> values, and for a \<^verbatim>\<open>ParseFloat\<close> that reads decimals to the nearest
  \<^verbatim>\<open>float64\<close>, the relayed line has one record, and its decoding has the
  identity of the relay, the facing and the movement flag of the character, and
  coordinates that are finite and differ from those of the character by at most
  0.005, the loss of the two fractional digits, plus the rounding of the reader,
  at most \<^verbatim>\<open>(|x| + 0.005) / 2^53\<close>.
\<close>

theorem roundtrip_through_relay:
  assumes "minInt64 \<le> direction p" and "direction p \<le> maxInt64"
    and "X (position p) = Fin rx" and "Y (position p) = Fin ry"
    and "\<bar>rx\<bar> \<le> max_float64" and "\<bar>ry\<bar> \<le> max_float64"
    and "reads_decimals_nearest lib"
  shows "\<exists>x' y' qx qy.
           map (decode lib) (Split (TrimSpace (clientID_of s @ '','' @ encode p)) (CHR '';'')) =
             [Some (clientID_of s, x', y', direction p, isMoving p)] \<and>
           x' = fst (ParseFloat lib (fmt_2f (Fin rx))) \<and> y' = fst (ParseFloat lib (fmt_2f (Fin ry))) \<and>
           f_rat x' = Some qx \<and> f_rat y' = Some qy \<and>
           \<bar>qx - rx\<bar> \<le> 1 / 200 + (\<bar>rx\<bar> + 1 / 200) / 2 ^ 53 \<and>
           \<bar>qy - ry\<bar> \<le> 1 / 200 + (\<bar>ry\<bar> + 1 / 200) / 2 ^ 53"
proof -
  have "map (decode lib) (Split (TrimSpace (clientID_of s @ '','' @ encode p)) (CHR '';'')) =
      [Some (clientID_of s, fst (ParseFloat lib (fmt_2f (Fin rx))),
             fst (ParseFloat lib (fmt_2f (Fin ry))), direction p, isMoving p)]"
    using decode_relayed [OF assms(1,2), of lib s] by (simp only: assms(3,4) append.simps)
  moreover from decoded_coordinate_bound [OF assms(7,5)] obtain qx
    where "f_rat (fst (ParseFloat lib (fmt_2f (Fin rx)))) = Some qx"
      and "\<bar>qx - rx\<bar> \<le> 1 / 200 + (\<bar>rx\<bar> + 1 / 200) / 2 ^ 53"
    by blast
  moreover from decoded_coordinate_bound [OF assms(7,6)] obtain qy
    where "f_rat (fst (ParseFloat lib (fmt_2f (Fin ry)))) = Some qy"
      and "\<bar>qy - ry\<bar> \<le> 1 / 200 + (\<bar>ry\<bar> + 1 / 200) / 2 ^ 53"
    by blast
  ultimately show ?thesis
    by (intro exI [of _ "fst (ParseFloat lib (fmt_2f (Fin rx)))"]
        exI [of _ "fst (ParseFloat lib (fmt_2f (Fin ry)))"] exI [of _ qx] exI [of _ qy])
      (simp only: simp_thms)
qed

theorem roundtrip_through_relay_witness:
  "minInt64 \<le> direction (localPlayer (NewGame 0 1 2 3 [])) \<and>
   direction (localPlayer (NewGame 0 1 2 3 [])) \<le> maxInt64 \<and>
   X (position (localPlayer (NewGame 0 1 2 3 []))) = Fin 400 \<and>
   Y (position (localPlayer (NewGame 0 1 2 3 []))) = Fin 300 \<and>
   \<bar>400\<bar> \<le> max_float64 \<and> \<bar>300\<bar> \<le> max_float64 \<and>
   reads_decimals_nearest exact_lib \<and>
   (\<exists>x' y' qx qy.
      map (decode exact_lib)
        (Split (TrimSpace (clientID_of NewServer @ '','' @ encode (localPlayer (NewGame 0 1 2 3 [])))) (CHR '';''))
        = [Some (clientID_of NewServer, x', y', direction (localPlayer (NewGame 0 1 2 3 [])),
                 isMoving (localPlayer (NewGame 0 1 2 3 [])))] \<and>
      x' = fst (ParseFloat exact_lib (fmt_2f (Fin 400))) \<and>
      y' = fst (ParseFloat exact_lib (fmt_2f (Fin 300))) \<and>
      f_rat x' = Some qx \<and> f_rat y' = Some qy \<and>
      \<bar>qx - 400\<bar> \<le> 1 / 200 + (\<bar>400\<bar> + 1 / 200) / 2 ^ 53 \<and>
      \<bar>qy - 300\<bar> \<le> 1 / 200 + (\<bar>300\<bar> + 1 / 200) / 2 ^ 53) \<and>
   map (decode exact_lib)
     (Split (TrimSpace (clientID_of NewServer @ '','' @ encode (localPlayer (NewGame 0 1 2 3 [])))) (CHR '';''))
     = [Some (''player1'', Fin 400, Fin 300, 0, False)]"
proof -
  let ?p = "localPlayer (NewGame 0 1 2 3 [])"
  have h: "minInt64 \<le> direction ?p" "direction ?p \<le> maxInt64"
    "X (position ?p) = Fin 400" "Y (position ?p) = Fin 300"
    by (simp_all add: NewGame_def NewCharacter_def minInt64_def maxInt64_def)
  have r: "\<bar>400\<bar> \<le> max_float64" "\<bar>300\<bar> \<le> max_float64"
    by (simp_all add: max_float64_def)
  note concl = roundtrip_through_relay [OF h r exact_lib_reads_nearest, of NewServer]
  have v: "clientID_of NewServer = ''player1''" "direction ?p = 0" "isMoving ?p = False"
    "fst (ParseFloat exact_lib (fmt_2f (Fin 400))) = Fin 400"
    "fst (ParseFloat exact_lib (fmt_2f (Fin 300))) = Fin 300"
    by (simp_all add: client_eval clientID_of_def fmt_eval parse_eval)
  from concl have "map (decode exact_lib)
     (Split (TrimSpace (clientID_of NewServer @ '','' @ encode ?p)) (CHR '';''))
     = [Some (clientID_of NewServer, fst (ParseFloat exact_lib (fmt_2f (Fin 400))),
              fst (ParseFloat exact_lib (fmt_2f (Fin 300))), direction ?p, isMoving ?p)]"
    by (elim exE conjE) (simp only:)
  then have "map (decode exact_lib)
     (Split (TrimSpace (clientID_of NewServer @ '','' @ encode ?p)) (CHR '';''))
     = [Some (''player1'', Fin 400, Fin 300, 0, False)]"
    by (simp only: v)
  with concl h r exact_lib_reads_nearest show ?thesis
    by blast
qed

text \<open>
  The record as the publisher writes it, with no identity in front, has four
  fields: the decoder yields no state for it.
\<close>

theorem bare_record_dropped:
  "encode (localPlayer (NewGame 0 1 2 3 [])) = ''400.00,300.00,0,false'' @ [CHR 0x0A] \<and>
   decode exact_lib (encode (localPlayer (NewGame 0 1 2 3 []))) = None \<and>
   map (decode exact_lib) (Split (TrimSpace (encode (localPlayer (NewGame 0 1 2 3 [])))) (CHR '';''))
     = [None]"
  by (simp add: client_eval fmt_eval parse_eval)

section \<open>The client: decoding\<close>

lemma decode_None_iff: "decode lib r = None \<longleftrightarrow> count_list r (CHR '','') \<noteq> 4"
  by (simp add: decode_def Let_def length_Split)

lemma decode_five:
  "Split r (CHR '','') = [i, x, y, d, m] \<Longrightarrow>
   decode lib r = Some (i, fst (ParseFloat lib x), fst (ParseFloat lib y), fst (Atoi d), fst (ParseBool m))"
  by (simp add: decode_def)

lemma Atoi_syntax_default: "snd (Atoi d) = Some ErrSyntax \<Longrightarrow> fst (Atoi d) = 0"
  by (auto simp: Atoi_def Let_def split: if_splits prod.splits option.splits NumError.splits)

lemma Atoi_range_default:
  "snd (Atoi d) = Some ErrRange \<Longrightarrow> fst (Atoi d) = maxInt64 \<or> fst (Atoi d) = minInt64"
  by (auto simp: Atoi_def Let_def split: if_splits prod.splits option.splits NumError.splits)

lemma ParseBool_default: "snd (ParseBool m) \<noteq> None \<Longrightarrow> fst (ParseBool m) = False"
  by (auto simp: ParseBool_def split: if_splits)

text \<open>
  C2. The decoder checks the number of fields and nothing else. It yields no state
  exactly when the record does not have five fields (four commas); a record of five
  fields always yields a state, whose fields are the values the three parsers
  return beside their errors: for the facing 0 after a syntax error and the largest
  or smallest \<^verbatim>\<open>int\<close> after a range error, for the movement flag \<open>false\<close> after
  an error, for a coordinate what \<^verbatim>\<open>ParseFloat\<close> returns. A facing outside 0 to 3
  is taken as it is.
\<close>

theorem decode_checks_field_count_only:
  "(decode lib r = None \<longleftrightarrow> count_list r (CHR '','') \<noteq> 4) \<and>
   (Split r (CHR '','') = [i, x, y, d, m] \<longrightarrow>
      decode lib r = Some (i, fst (ParseFloat lib x), fst (ParseFloat lib y),
                           fst (Atoi d), fst (ParseBool m))) \<and>
   (snd (Atoi d) = Some ErrSyntax \<longrightarrow> fst (Atoi d) = 0) \<and>
   (snd (Atoi d) = Some ErrRange \<longrightarrow> fst (Atoi d) = maxInt64 \<or> fst (Atoi d) = minInt64) \<and>
   (snd (ParseBool m) \<noteq> None \<longrightarrow> fst (ParseBool m) = False)"
  using decode_None_iff decode_five Atoi_syntax_default Atoi_range_default ParseBool_default
  by blast

theorem decode_checks_field_count_only_witness:
  "Split ''player1,abc,,x7,maybe'' (CHR '','') = [''player1'', ''abc'', [], ''x7'', ''maybe''] \<and>
   snd (Atoi ''x7'') = Some ErrSyntax \<and>
   snd (ParseBool ''maybe'') \<noteq> None \<and>
   decode exact_lib ''player1,abc,,x7,maybe'' = Some (''player1'', Fin 0, Fin 0, 0, False) \<and>
   fst (Atoi ''x7'') = 0 \<and> fst (ParseBool ''maybe'') = False"
proof -
  have fields: "Split ''player1,abc,,x7,maybe'' (CHR '','') = [''player1'', ''abc'', [], ''x7'', ''maybe'']"
    by simp
  have errs: "snd (Atoi ''x7'') = Some ErrSyntax" "snd (ParseBool ''maybe'') \<noteq> None"
    by (simp_all add: parse_eval)
  have floats: "fst (ParseFloat exact_lib ''abc'') = Fin 0" "fst (ParseFloat exact_lib []) = Fin 0"
    by (simp_all add: parse_eval)
  from decode_checks_field_count_only
    [of exact_lib "''player1,abc,,x7,maybe''" "''player1''" "''abc''" "[]" "''x7''" "''maybe''"]
    fields errs
  have "decode exact_lib ''player1,abc,,x7,maybe'' =
      Some (''player1'', fst (ParseFloat exact_lib ''abc''), fst (ParseFloat exact_lib []),
            fst (Atoi ''x7''), fst (ParseBool ''maybe''))"
    and "fst (Atoi ''x7'') = 0" and "fst (ParseBool ''maybe'') = False"
    by blast+
  with fields errs floats show ?thesis
    by simp
qed

text \<open>
  A record of five fields whose coordinates are no numbers, whose facing is 7 and
  whose movement flag is no boolean is decoded: the coordinates are 0, the facing
  is 7 and the flag is \<open>false\<close>.
\<close>

theorem garbage_record_decoded:
  "decode exact_lib ''player1,abc,,7,maybe'' = Some (''player1'', Fin 0, Fin 0, 7, False)"
  by (simp add: decode_def parse_eval)

section \<open>The publisher\<close>

lemma handleInput_ignores_write:
  "handleInput lib keys ok dt g = handleInput lib keys True dt g"
  by (simp add: handleInput_def Let_def)

text \<open>
  C5. A tick of the publisher hands one record to the connection and drops what the
  write returns: whether the write fails or not, \<^verbatim>\<open>Update\<close> returns the same game
  and the same record, and the error it returns is \<^verbatim>\<open>nil\<close>. A failed write is not
  retried, not reported and not fatal.
\<close>

theorem Update_drops_write_error:
  "Update lib keys ok g = Update lib keys True g \<and>
   snd (snd (Update lib keys ok g)) = None \<and>
   fst (snd (Update lib keys ok g)) = encode (localPlayer (fst (handleInput lib keys ok deltaTime_tick g)))"
  by (simp add: Update_def handleInput_ignores_write [of lib keys ok] split: prod.splits)
    (simp add: handleInput_def Let_def)

text \<open>
  A tick whose write fails: the record is handed to the connection, the write
  returns an error, and \<^verbatim>\<open>Update\<close> returns \<^verbatim>\<open>nil\<close>.
\<close>

theorem failed_write_not_reported:
  "fst (snd (Update exact_lib \<lparr>KeyUp = False, KeyDown = False, KeyLeft = False, KeyRight = False\<rparr>
       False (NewGame 0 1 2 3 []))) = ''400.00,300.00,0,false'' @ [CHR 0x0A] \<and>
   Fprintf False (''400.00,300.00,0,false'' @ [CHR 0x0A]) = (0, Some WriteError) \<and>
   snd (snd (Update exact_lib \<lparr>KeyUp = False, KeyDown = False, KeyLeft = False, KeyRight = False\<rparr>
       False (NewGame 0 1 2 3 []))) = None"
  by (simp add: Update_def handleInput_def Character_Update_def updateAnimation_def
      deltaTime_tick_def Fprintf_def client_eval fmt_eval exact_lib_def exact_op_def Let_def)

section \<open>The client: the cache of remote players\<close>

lemma apply_update_entry:
  assumes "ident \<noteq> ''local''"
  shows "map_of (otherPlayers (apply_update ident x y dir moving g)) ident =
     Some ((case map_of (otherPlayers g) ident of
              None \<Rightarrow> NewCharacter (bodyTexture (localPlayer g)) (headTexture (localPlayer g))
                        \<lparr>X = x, Y = y\<rparr>
            | Some p \<Rightarrow> p)\<lparr>position := \<lparr>X = x, Y = y\<rparr>, direction := dir, isMoving := moving\<rparr>)"
  using assms by (simp add: apply_update_def Let_def update_conv')

lemma apply_update_others:
  "other \<noteq> ident \<Longrightarrow>
   map_of (otherPlayers (apply_update ident x y dir moving g)) other = map_of (otherPlayers g) other"
  by (simp add: apply_update_def Let_def update_conv')

lemma apply_update_local: "localPlayer (apply_update ident x y dir moving g) = localPlayer g"
  by (simp add: apply_update_def Let_def)

text \<open>
  C10. When the receive loop applies a record whose identity already has an entry
  in the cache, the new entry is the old one with its position, its facing and its
  movement flag replaced by the decoded ones: the two textures, the movement
  speed, the animation speed, the frame index and the animation timer are those of
  the old entry. Every other entry and the local player are as they were.
\<close>

theorem update_replaces_three_fields:
  assumes "map_of (otherPlayers g) ident = Some p"
    and "decode lib r = Some (ident, x, y, dir, moving)"
    and "ident \<noteq> ''local''"
  shows "map_of (otherPlayers (apply_record lib g r)) ident =
           Some (p\<lparr>position := \<lparr>X = x, Y = y\<rparr>, direction := dir, isMoving := moving\<rparr>) \<and>
         (\<exists>q. map_of (otherPlayers (apply_record lib g r)) ident = Some q \<and>
            bodyTexture q = bodyTexture p \<and> headTexture q = headTexture p \<and>
            moveSpeed q = moveSpeed p \<and> animationSpeed q = animationSpeed p \<and>
            frameIndex q = frameIndex p \<and> timeSinceLastFrame q = timeSinceLastFrame p) \<and>
         (\<forall>other. other \<noteq> ident \<longrightarrow>
            map_of (otherPlayers (apply_record lib g r)) other = map_of (otherPlayers g) other) \<and>
         localPlayer (apply_record lib g r) = localPlayer g"
  using assms
  by (simp add: apply_record_def apply_update_entry apply_update_others apply_update_local)

theorem update_replaces_three_fields_witness:
  "map_of (otherPlayers
     ((NewGame 0 1 2 3 [])\<lparr>otherPlayers :=
        [(''player2'', (NewCharacter 1 2 \<lparr>X = Fin 1, Y = Fin 2\<rparr>)\<lparr>frameIndex := 3\<rparr>)]\<rparr>)) ''player2''
     = Some ((NewCharacter 1 2 \<lparr>X = Fin 1, Y = Fin 2\<rparr>)\<lparr>frameIndex := 3\<rparr>) \<and>
   decode exact_lib ''player2,100.00,200.00,2,true'' = Some (''player2'', Fin 100, Fin 200, 2, True) \<and>
   ''player2'' \<noteq> ''local'' \<and>
   map_of (otherPlayers (apply_record exact_lib
     ((NewGame 0 1 2 3 [])\<lparr>otherPlayers :=
        [(''player2'', (NewCharacter 1 2 \<lparr>X = Fin 1, Y = Fin 2\<rparr>)\<lparr>frameIndex := 3\<rparr>)]\<rparr>)
     ''player2,100.00,200.00,2,true'')) ''player2''
     = Some ((NewCharacter 1 2 \<lparr>X = Fin 1, Y = Fin 2\<rparr>)
          \<lparr>frameIndex := 3, position := \<lparr>X = Fin 100, Y = Fin 200\<rparr>, direction := 2, isMoving := True\<rparr>)"
proof -
  let ?p = "(NewCharacter 1 2 \<lparr>X = Fin 1, Y = Fin 2\<rparr>)\<lparr>frameIndex := 3\<rparr>"
  let ?g = "(NewGame 0 1 2 3 [])\<lparr>otherPlayers := [(''player2'', ?p)]\<rparr>"
  have entry: "map_of (otherPlayers ?g) ''player2'' = Some ?p"
    by simp
  have dec: "decode exact_lib ''player2,100.00,200.00,2,true'' = Some (''player2'', Fin 100, Fin 200, 2, True)"
    by (simp add: decode_def parse_eval)
  have other: "''player2'' \<noteq> ''local''"
    by simp
  from update_replaces_three_fields [OF entry dec other] entry dec other show ?thesis
    by simp
qed

subsection \<open>The sentinel\<close>

lemma sentinel_filtered:
  "decode lib r = Some (''local'', x, y, dir, moving) \<Longrightarrow> apply_record lib g r = g"
  by (simp add: apply_record_def apply_update_def)

lemma sentinel_never_cached:
  "''local'' \<notin> fst ` set (otherPlayers g) \<Longrightarrow> ''local'' \<notin> fst ` set (otherPlayers (apply_record lib g r))"
  by (auto simp: apply_record_def apply_update_def Let_def dom_update split: option.splits)

subsection \<open>The echo of the local player\<close>

text \<open>
  C3. A record whose identity is the sentinel \<open>local\<close> is not applied
  (\<open>sentinel_filtered\<close>), but the relay never sends the sentinel: it puts the
  identity it gave the sender in front of the sender's record and writes the line
  to the sender as well. In the execution below one client connects and publishes
  the record of its first tick; the relay delivers \<open>player1,400.00,300.00,0,false\<close> to that
  same client, whose receive loop creates the cache entry \<open>player1\<close> from it: the
  local player is in its own cache and is drawn twice.
\<close>

theorem own_echo_is_cached:
  "snd (handleInput exact_lib \<lparr>KeyUp = False, KeyDown = False, KeyLeft = False, KeyRight = False\<rparr>
       True deltaTime_tick (NewGame 0 1 2 3 []))
     = ''400.00,300.00,0,false'' @ [CHR 0x0A] \<and>
   snd (exec relay_init [Accept, Insert 0, Recv 0 (''400.00,300.00,0,false'' @ [CHR 0x0A]) []])
     = [Delivered 0 (''player1,400.00,300.00,0,false'' @ [CHR 0x0A])] \<and>
   otherPlayers (receive_message exact_lib (''player1,400.00,300.00,0,false'' @ [CHR 0x0A])
       (NewGame 0 1 2 3 []))
     = [(''player1'', NewCharacter 1 2 \<lparr>X = Fin 400, Y = Fin 300\<rparr>)] \<and>
   drawn_characters (receive_message exact_lib (''player1,400.00,300.00,0,false'' @ [CHR 0x0A])
       (NewGame 0 1 2 3 []))
     = [NewCharacter 1 2 \<lparr>X = Fin 400, Y = Fin 300\<rparr>, NewCharacter 1 2 \<lparr>X = Fin 400, Y = Fin 300\<rparr>]"
proof -
  have sent: "snd (handleInput exact_lib \<lparr>KeyUp = False, KeyDown = False, KeyLeft = False, KeyRight = False\<rparr>
       True deltaTime_tick (NewGame 0 1 2 3 [])) = ''400.00,300.00,0,false'' @ [CHR 0x0A]"
    by (simp add: handleInput_def Let_def client_eval fmt_eval exact_lib_def exact_op_def)
  have relayed: "snd (exec relay_init [Accept, Insert 0, Recv 0 (''400.00,300.00,0,false'' @ [CHR 0x0A]) []])
      = [Delivered 0 (''player1,400.00,300.00,0,false'' @ [CHR 0x0A])]"
    by (simp add: relay_eval)
  have cached: "receive_message exact_lib (''player1,400.00,300.00,0,false'' @ [CHR 0x0A]) (NewGame 0 1 2 3 [])
      = (NewGame 0 1 2 3 [])\<lparr>otherPlayers := [(''player1'', NewCharacter 1 2 \<lparr>X = Fin 400, Y = Fin 300\<rparr>)]\<rparr>"
    by (simp add: client_eval parse_eval)
  show ?thesis
    unfolding sent relayed cached by (simp add: drawn_characters_def NewGame_def)
qed

subsection \<open>Entries are created by updates and never removed\<close>

lemma keys_apply_update:
  "fst ` set (otherPlayers (apply_update ident x y dir moving g)) =
     (if ident \<noteq> ''local'' then insert ident (fst ` set (otherPlayers g)) else fst ` set (otherPlayers g))"
  by (simp add: apply_update_def Let_def dom_update)

lemma keys_apply_record:
  "fst ` set (otherPlayers (apply_record lib g r)) = fst ` set (otherPlayers g) \<union> set (record_ids lib r)"
  by (auto simp: apply_record_def record_ids_def keys_apply_update split: option.splits)

lemma keys_foldl_apply_record:
  "fst ` set (otherPlayers (foldl (apply_record lib) g rs)) =
     fst ` set (otherPlayers g) \<union> set (concat (map (record_ids lib) rs))"
  by (induction rs arbitrary: g) (auto simp: keys_apply_record)

lemma keys_receive_message:
  "fst ` set (otherPlayers (receive_message lib message g)) =
     fst ` set (otherPlayers g) \<union> set (message_ids lib message)"
  by (simp add: receive_message_def message_ids_def keys_foldl_apply_record)

lemma others_handleInput: "otherPlayers (fst (handleInput lib keys ok dt g)) = otherPlayers g"
  by (simp add: handleInput_def Let_def)

lemma others_Update:
  "otherPlayers (fst (Update lib keys ok g)) =
     map (\<lambda>(ident, player). (ident, Character_Update lib deltaTime_tick player)) (otherPlayers g)"
  using others_handleInput [of lib keys ok deltaTime_tick g]
  by (cases "handleInput lib keys ok deltaTime_tick g") (simp add: Update_def)

lemma keys_Update: "fst ` set (otherPlayers (fst (Update lib keys ok g))) = fst ` set (otherPlayers g)"
  by (force simp: others_Update)

lemma pose_Character_Update:
  "position (Character_Update lib dt p) = position p \<and>
   direction (Character_Update lib dt p) = direction p \<and>
   isMoving (Character_Update lib dt p) = isMoving p"
  by (simp add: Character_Update_def updateAnimation_def Let_def)

lemma poses_Update: "poses (fst (Update lib keys ok g)) = poses g"
  by (simp add: poses_def others_Update pose_Character_Update split_def)

lemma keys_client_step:
  "fst ` set (otherPlayers (game cl)) \<subseteq> fst ` set (otherPlayers (game (client_step lib cl e)))"
proof (cases e)
  case (Read res)
  then show ?thesis
    by (cases res) (auto simp: keys_receive_message)
next
  case (Tick keys ok)
  then show ?thesis
    by (simp add: keys_Update)
qed

lemma client_run_Cons: "client_run lib cl (e # evs) = client_run lib (client_step lib cl e) evs"
  by (simp add: client_run_def)

text \<open>With no tick in between, the reads of the client process are the loop \<open>receiveUpdates\<close>.\<close>

lemma client_run_reads:
  "game (client_run lib \<lparr>game = g, receiving = True\<rparr> (map Read rs)) = receiveUpdates lib rs g"
proof (induction rs arbitrary: g)
  case Nil
  then show ?case by (simp add: client_run_def)
next
  case (Cons r rs)
  show ?case
  proof (cases r)
    case (Line message)
    with Cons.IH [of "receive_message lib message g"] show ?thesis
      by (simp add: client_run_Cons)
  next
    case ReadError
    have "game (client_run lib c (map Read rs)) = game c" if "\<not> receiving c" for c
      using that
    proof (induction rs arbitrary: c)
      case Nil
      then show ?case by (simp add: client_run_def)
    next
      case (Cons r rs)
      then show ?case by (cases r) (simp_all add: client_run_Cons)
    qed
    from this [of "\<lparr>game = g, receiving = False\<rparr>"] ReadError show ?thesis
      by (simp add: client_run_Cons)
  qed
qed

lemma client_run_stopped:
  "\<not> receiving cl \<Longrightarrow>
   fst ` set (otherPlayers (game (client_run lib cl evs))) = fst ` set (otherPlayers (game cl))"
proof (induction evs arbitrary: cl)
  case Nil
  then show ?case by (simp add: client_run_def)
next
  case (Cons e evs)
  have "\<not> receiving (client_step lib cl e) \<and>
      fst ` set (otherPlayers (game (client_step lib cl e))) = fst ` set (otherPlayers (game cl))"
  proof (cases e)
    case (Read res)
    with Cons.prems show ?thesis by (cases res) simp_all
  next
    case (Tick keys ok)
    with Cons.prems show ?thesis by (simp add: keys_Update)
  qed
  with Cons.IH [of "client_step lib cl e"] show ?case
    by (simp add: client_run_Cons)
qed

lemma client_run_keys:
  "receiving cl \<Longrightarrow>
   fst ` set (otherPlayers (game (client_run lib cl evs))) =
     fst ` set (otherPlayers (game cl)) \<union> set (received_ids lib evs)"
proof (induction evs arbitrary: cl)
  case Nil
  then show ?case by (simp add: client_run_def received_ids_def)
next
  case (Cons e evs)
  show ?case
  proof (cases e)
    case (Read res)
    show ?thesis
    proof (cases res)
      case (Line message)
      with Read Cons.prems have "receiving (client_step lib cl e)"
        by simp
      from Cons.IH [OF this] Read Line Cons.prems show ?thesis
        by (simp add: client_run_Cons keys_receive_message received_ids_def Un_assoc)
    next
      case ReadError
      with Read have "\<not> receiving (client_step lib cl e)"
        by simp
      from client_run_stopped [OF this, of lib evs] Read ReadError show ?thesis
        by (simp add: client_run_Cons received_ids_def)
    qed
  next
    case (Tick keys ok)
    with Cons.prems have "receiving (client_step lib cl e)"
      by simp
    from Cons.IH [OF this] Tick show ?thesis
      by (simp add: client_run_Cons keys_Update received_ids_def)
  qed
qed

lemma apply_record_untouched:
  "ident \<notin> set (record_ids lib r) \<Longrightarrow>
   map_of (otherPlayers (apply_record lib g r)) ident = map_of (otherPlayers g) ident"
proof (cases "decode lib r")
  case None
  then show ?thesis
    by (simp add: apply_record_def)
next
  case (Some u)
  then obtain a x y dir moving where u: "decode lib r = Some (a, x, y, dir, moving)"
    by (cases u) auto
  assume absent: "ident \<notin> set (record_ids lib r)"
  show ?thesis
  proof (cases "a = ''local''")
    case True
    with u show ?thesis
      by (simp add: apply_record_def apply_update_def)
  next
    case False
    with u absent have "ident \<noteq> a"
      by (auto simp: record_ids_def)
    with u show ?thesis
      by (simp add: apply_record_def apply_update_others)
  qed
qed

lemma foldl_apply_record_untouched:
  "ident \<notin> set (concat (map (record_ids lib) rs)) \<Longrightarrow>
   map_of (otherPlayers (foldl (apply_record lib) g rs)) ident = map_of (otherPlayers g) ident"
  by (induction rs arbitrary: g) (simp_all add: apply_record_untouched)

lemma receive_message_untouched:
  "ident \<notin> set (message_ids lib message) \<Longrightarrow>
   map_of (otherPlayers (receive_message lib message g)) ident = map_of (otherPlayers g) ident"
  by (simp add: receive_message_def message_ids_def foldl_apply_record_untouched)

subsection \<open>The cache holds the last pose received\<close>

lemma map_of_poses:
  "map_of (poses g) ident =
     map_option (\<lambda>p. (position p, direction p, isMoving p)) (map_of (otherPlayers g) ident)"
proof -
  have "map_of (map (\<lambda>(k, p). (k, position p, direction p, isMoving p)) xs) ident =
      map_option (\<lambda>p. (position p, direction p, isMoving p)) (map_of xs ident)" for xs :: "(string \<times> Character) list"
    by (induction xs) auto
  then show ?thesis
    by (simp add: poses_def)
qed

lemma poses_apply_update:
  "ident \<noteq> ''local'' \<Longrightarrow>
   map_of (poses (apply_update ident x y dir moving g)) =
     (map_of (poses g))(ident \<mapsto> (\<lparr>X = x, Y = y\<rparr>, dir, moving))"
  by (rule ext) (simp add: map_of_poses apply_update_entry apply_update_others)

lemma poses_apply_record:
  "map_of (poses (apply_record lib g r)) = map_of (poses g) ++ map_of (record_update lib r)"
proof (cases "decode lib r")
  case None
  then show ?thesis
    by (simp add: apply_record_def record_update_def)
next
  case (Some u)
  then obtain a x y dir moving where u: "decode lib r = Some (a, x, y, dir, moving)"
    by (cases u) auto
  show ?thesis
  proof (cases "a = ''local''")
    case True
    with u show ?thesis
      by (simp add: apply_record_def record_update_def apply_update_def)
  next
    case False
    with u show ?thesis
      by (simp add: apply_record_def record_update_def poses_apply_update)
  qed
qed

lemma rev_record_update: "rev (record_update lib r) = record_update lib r"
  by (simp add: record_update_def split: option.splits)

lemma poses_foldl_apply_record:
  "map_of (poses (foldl (apply_record lib) g rs)) =
     map_of (poses g) ++ map_of (rev (concat (map (record_update lib) rs)))"
proof (induction rs arbitrary: g)
  case Nil
  then show ?case by simp
next
  case (Cons r rs)
  have "map_of (poses (foldl (apply_record lib) g (r # rs))) =
      (map_of (poses g) ++ map_of (record_update lib r)) ++
        map_of (rev (concat (map (record_update lib) rs)))"
    by (simp add: Cons.IH poses_apply_record)
  also have "\<dots> = map_of (poses g) ++ map_of (rev (concat (map (record_update lib) (r # rs))))"
    by (simp add: rev_record_update)
  finally show ?case .
qed

lemma poses_receive_message:
  "map_of (poses (receive_message lib message g)) =
     map_of (poses g) ++ map_of (rev (message_updates lib message))"
  by (simp add: receive_message_def message_updates_def poses_foldl_apply_record)

lemma poses_client_run_stopped:
  "\<not> receiving cl \<Longrightarrow> map_of (poses (game (client_run lib cl evs))) = map_of (poses (game cl))"
proof (induction evs arbitrary: cl)
  case Nil
  then show ?case by (simp add: client_run_def)
next
  case (Cons e evs)
  have "\<not> receiving (client_step lib cl e) \<and>
      map_of (poses (game (client_step lib cl e))) = map_of (poses (game cl))"
  proof (cases e)
    case (Read res)
    with Cons.prems show ?thesis by (cases res) simp_all
  next
    case (Tick keys ok)
    with Cons.prems show ?thesis by (simp add: poses_Update)
  qed
  with Cons.IH [of "client_step lib cl e"] show ?case
    by (simp add: client_run_Cons)
qed

lemma poses_client_run:
  "receiving cl \<Longrightarrow>
   map_of (poses (game (client_run lib cl evs))) =
     map_of (poses (game cl)) ++ map_of (rev (received_updates lib evs))"
proof (induction evs arbitrary: cl)
  case Nil
  then show ?case by (simp add: client_run_def received_updates_def)
next
  case (Cons e evs)
  show ?case
  proof (cases e)
    case (Read res)
    show ?thesis
    proof (cases res)
      case (Line message)
      with Read Cons.prems have "receiving (client_step lib cl e)"
        by simp
      from Cons.IH [OF this] Read Line Cons.prems show ?thesis
        by (simp add: client_run_Cons poses_receive_message received_updates_def)
    next
      case ReadError
      with Read have "\<not> receiving (client_step lib cl e)"
        by simp
      from poses_client_run_stopped [OF this, of lib evs] Read ReadError show ?thesis
        by (simp add: client_run_Cons received_updates_def)
    qed
  next
    case (Tick keys ok)
    with Cons.prems have "receiving (client_step lib cl e)"
      by simp
    from Cons.IH [OF this] Tick show ?thesis
      by (simp add: client_run_Cons poses_Update received_updates_def)
  qed
qed

lemma cache_holds_last_update:
  "map_of (poses (game (client_run lib \<lparr>game = NewGame c body head tiles ls, receiving = True\<rparr> evs))) ident
     = last_update lib evs ident"
  using poses_client_run [of "\<lparr>game = NewGame c body head tiles ls, receiving = True\<rparr>" lib evs]
  by (simp add: last_update_def poses_def NewGame_def)

text \<open>
  C8. From the creation of the cache on, after any interleaving of reads of the
  receive loop and ticks of the game loop, the cache has an entry for an identity
  if and only if an update for it has been received and not filtered, and the
  pose of that entry (position, facing, movement flag) is the one of the last
  such update. No step of the client removes an entry. The entry of a participant
  who sends nothing more keeps its last pose: a tick changes no pose, and a line
  with no update for an identity leaves the entry of that identity as it was.
\<close>

theorem cache_entries_persist:
  "fst ` set (otherPlayers (game (client_run lib
       \<lparr>game = NewGame c body head tiles ls, receiving = True\<rparr> evs))) = set (received_ids lib evs) \<and>
   map_of (poses (game (client_run lib
       \<lparr>game = NewGame c body head tiles ls, receiving = True\<rparr> evs))) who = last_update lib evs who \<and>
   fst ` set (otherPlayers (game cl)) \<subseteq> fst ` set (otherPlayers (game (client_step lib cl e))) \<and>
   poses (game (client_step lib cl (Tick keys ok))) = poses (game cl) \<and>
   (ident \<notin> set (message_ids lib message) \<longrightarrow>
      map_of (otherPlayers (game (client_step lib cl (Read (Line message))))) ident =
      map_of (otherPlayers (game cl)) ident)"
proof -
  have "fst ` set (otherPlayers (game (client_run lib
       \<lparr>game = NewGame c body head tiles ls, receiving = True\<rparr> evs))) = set (received_ids lib evs)"
    using client_run_keys [of "\<lparr>game = NewGame c body head tiles ls, receiving = True\<rparr>" lib evs]
    by (simp add: NewGame_def)
  moreover have "map_of (poses (game (client_run lib
       \<lparr>game = NewGame c body head tiles ls, receiving = True\<rparr> evs))) who = last_update lib evs who"
    by (rule cache_holds_last_update)
  moreover have "poses (game (client_step lib cl (Tick keys ok))) = poses (game cl)"
    by (simp add: poses_Update)
  moreover have "ident \<notin> set (message_ids lib message) \<longrightarrow>
      map_of (otherPlayers (game (client_step lib cl (Read (Line message))))) ident =
      map_of (otherPlayers (game cl)) ident"
    by (simp add: receive_message_untouched)
  ultimately show ?thesis
    using keys_client_step by blast
qed

theorem cache_entries_persist_witness:
  "''player3'' \<notin> set (message_ids exact_lib (''player2,1.00,2.00,1,true'' @ [CHR 0x0A])) \<and>
   map_of (otherPlayers (game (client_step exact_lib
       \<lparr>game = (NewGame 0 1 2 3 [])\<lparr>otherPlayers := [(''player3'', NewCharacter 1 2 \<lparr>X = Fin 7, Y = Fin 8\<rparr>)]\<rparr>,
        receiving = True\<rparr>
       (Read (Line (''player2,1.00,2.00,1,true'' @ [CHR 0x0A])))))) ''player3''
     = Some (NewCharacter 1 2 \<lparr>X = Fin 7, Y = Fin 8\<rparr>) \<and>
   fst ` set (otherPlayers (game (client_run exact_lib \<lparr>game = NewGame 0 1 2 3 [], receiving = True\<rparr>
       [Read (Line (''player2,1.00,2.00,1,true'' @ [CHR 0x0A])),
        Tick \<lparr>KeyUp = False, KeyDown = False, KeyLeft = False, KeyRight = False\<rparr> True,
        Read (Line (''local,5.00,5.00,0,false'' @ [CHR 0x0A])),
        Read (Line (''player2,5.50,6.25,3,false'' @ [CHR 0x0A])),
        Read (Line (''junk'' @ [CHR 0x0A])),
        Read ReadError,
        Read (Line (''player9,0.00,0.00,0,false'' @ [CHR 0x0A]))]))) = {''player2''} \<and>
   map_of (poses (game (client_run exact_lib \<lparr>game = NewGame 0 1 2 3 [], receiving = True\<rparr>
       [Read (Line (''player2,1.00,2.00,1,true'' @ [CHR 0x0A])),
        Tick \<lparr>KeyUp = False, KeyDown = False, KeyLeft = False, KeyRight = False\<rparr> True,
        Read (Line (''local,5.00,5.00,0,false'' @ [CHR 0x0A])),
        Read (Line (''player2,5.50,6.25,3,false'' @ [CHR 0x0A])),
        Read (Line (''junk'' @ [CHR 0x0A])),
        Read ReadError,
        Read (Line (''player9,0.00,0.00,0,false'' @ [CHR 0x0A]))]))) ''player2''
     = Some (\<lparr>X = Fin (11 / 2), Y = Fin (25 / 4)\<rparr>, 3, False)"
proof -
  let ?cl = "\<lparr>game = (NewGame 0 1 2 3 [])\<lparr>otherPlayers := [(''player3'', NewCharacter 1 2 \<lparr>X = Fin 7, Y = Fin 8\<rparr>)]\<rparr>,
        receiving = True\<rparr>"
  let ?evs = "[Read (Line (''player2,1.00,2.00,1,true'' @ [CHR 0x0A])),
        Tick \<lparr>KeyUp = False, KeyDown = False, KeyLeft = False, KeyRight = False\<rparr> True,
        Read (Line (''local,5.00,5.00,0,false'' @ [CHR 0x0A])),
        Read (Line (''player2,5.50,6.25,3,false'' @ [CHR 0x0A])),
        Read (Line (''junk'' @ [CHR 0x0A])),
        Read ReadError,
        Read (Line (''player9,0.00,0.00,0,false'' @ [CHR 0x0A]))]"
  have absent: "''player3'' \<notin> set (message_ids exact_lib (''player2,1.00,2.00,1,true'' @ [CHR 0x0A]))"
    by (simp add: message_ids_def record_ids_def client_eval parse_eval)
  have before: "map_of (otherPlayers (game ?cl)) ''player3'' = Some (NewCharacter 1 2 \<lparr>X = Fin 7, Y = Fin 8\<rparr>)"
    by simp
  have ids: "set (received_ids exact_lib ?evs) = {''player2''}"
    by (simp add: received_ids_def message_ids_def record_ids_def client_eval parse_eval)
  have last: "last_update exact_lib ?evs ''player2'' = Some (\<lparr>X = Fin (11 / 2), Y = Fin (25 / 4)\<rparr>, 3, False)"
    by (simp add: last_update_def received_updates_def message_updates_def record_update_def
        client_eval parse_eval)
  from cache_entries_persist [of exact_lib 0 1 2 3 "[]" ?evs "''player2''" ?cl _ _ _ "''player3''"
      "''player2,1.00,2.00,1,true'' @ [CHR 0x0A]"] absent
  have "fst ` set (otherPlayers (game (client_run exact_lib \<lparr>game = NewGame 0 1 2 3 [], receiving = True\<rparr> ?evs)))
      = set (received_ids exact_lib ?evs)"
    and "map_of (poses (game (client_run exact_lib \<lparr>game = NewGame 0 1 2 3 [], receiving = True\<rparr> ?evs))) ''player2''
      = last_update exact_lib ?evs ''player2''"
    and "map_of (otherPlayers (game (client_step exact_lib ?cl
        (Read (Line (''player2,1.00,2.00,1,true'' @ [CHR 0x0A])))))) ''player3''
      = map_of (otherPlayers (game ?cl)) ''player3''"
    by blast+
  with absent before ids last show ?thesis
    by (simp only: simp_thms)
qed

end
